theory Spec2Isabelle
  imports Main
begin

section \<open>Values, requests and documents\<close>

text \<open>
  The server (\<^verbatim>\<open>src/server.js\<close>) is an Express application over a MongoDB database.
  Identifiers reach the handlers as path parameters (always strings), as a query
  parameter, or as fields of a JSON body. They are modelled as scalar JavaScript values.
  A \<^verbatim>\<open>Number\<close> is a double: the model has the integer-valued ones (\<open>JNum\<close>), \<^verbatim>\<open>NaN\<close> and
  the two infinities; numbers with a fraction, and arrays and objects as identifiers,
  are outside the model. Characters are 8-bit code units.
\<close>

datatype jsval =
  JUndefined | JNull | JBool bool | JNum int | JNaN | JInfinity | JNegInfinity | JStr string

text \<open>JavaScript truthiness, as used by \<^verbatim>\<open>!x\<close> and \<^verbatim>\<open>x || y\<close>.\<close>

fun truthy :: "jsval \<Rightarrow> bool" where
  "truthy JUndefined = False"
| "truthy JNull = False"
| "truthy (JBool b) = b"
| "truthy (JNum n) = (n \<noteq> 0)"
| "truthy JNaN = False"
| "truthy JInfinity = True"
| "truthy JNegInfinity = True"
| "truthy (JStr s) = (s \<noteq> [])"

text \<open>
  The driver serialises \<^verbatim>\<open>undefined\<close> as BSON null, both in a filter and in a stored
  document.
\<close>

fun bson :: "jsval \<Rightarrow> jsval" where
  "bson JUndefined = JNull"
| "bson v = v"

subsection \<open>Integers as doubles\<close>

text \<open>
  A non-negative integer as the nearest double: at most 53 significant bits, a tie
  going to the even significand. From \<open>2^1024\<close> on the result is no finite double.
\<close>

fun bitlen :: "nat \<Rightarrow> nat" where
  "bitlen n = (if n = 0 then 0 else Suc (bitlen (n div 2)))"

declare bitlen.simps [simp del]

definition round_double :: "nat \<Rightarrow> nat" where
  "round_double m =
     (if m < 2 ^ 53 then m
      else
        let sh = bitlen m - 53; q = m div 2 ^ sh; r = m mod 2 ^ sh; half = 2 ^ (sh - 1);
            q' = (if half < r \<or> (r = half \<and> odd q) then q + 1 else q)
        in q' * 2 ^ sh)"

definition to_number :: "int \<Rightarrow> nat \<Rightarrow> jsval" where
  "to_number sign m =
     (let r = round_double m
      in if 2 ^ 1024 \<le> r then (if sign < 0 then JNegInfinity else JInfinity)
         else JNum (sign * int r))"

text \<open>
  \<^verbatim>\<open>Number::toString\<close> writes the shortest decimal that reads back as the number, and
  from \<open>10^21\<close> on writes it with an exponent (\<^verbatim>\<open>"1e+21"\<close>), one digit before the point.
  That digit is the first digit of the number, unless the number is the double nearest
  to the next round value, as \<^verbatim>\<open>1e23\<close> is, whose exact value begins with 9.
\<close>

fun declen :: "nat \<Rightarrow> nat" where
  "declen n = (if n < 10 then 1 else Suc (declen (n div 10)))"

declare declen.simps [simp del]

definition lead_digit :: "nat \<Rightarrow> nat" where
  "lead_digit x =
     (let p = 10 ^ (declen x - 1); d = x div p
      in if round_double ((d + 1) * p) = x then (if d = 9 then 1 else d + 1) else d)"

subsection \<open>\<^verbatim>\<open>parseInt\<close> with no radix\<close>

definition is_ws :: "char \<Rightarrow> bool" where
  "is_ws c = ((of_char c :: nat) \<in> {9, 10, 11, 12, 13, 32, 160})"

definition digit_of :: "nat \<Rightarrow> char \<Rightarrow> nat option" where
  "digit_of r c =
     (let k = (of_char c :: nat);
          d = (if 48 \<le> k \<and> k \<le> 57 then Some (k - 48)
               else if 97 \<le> k \<and> k \<le> 122 then Some (k - 87)
               else if 65 \<le> k \<and> k \<le> 90 then Some (k - 55)
               else None)
      in case d of None \<Rightarrow> None | Some v \<Rightarrow> (if v < r then Some v else None))"

text \<open>The value of the longest prefix of digits; \<open>None\<close> when there is no digit.\<close>

fun digits :: "nat \<Rightarrow> nat option \<Rightarrow> string \<Rightarrow> nat option" where
  "digits r acc [] = acc"
| "digits r acc (c # cs) =
     (case digit_of r c of
        None \<Rightarrow> acc
      | Some d \<Rightarrow> digits r (Some (case acc of None \<Rightarrow> d | Some a \<Rightarrow> a * r + d)) cs)"

definition parse_sign :: "string \<Rightarrow> int \<times> string" where
  "parse_sign s =
     (case s of
        [] \<Rightarrow> (1, [])
      | c # cs \<Rightarrow> (if c = CHR ''-'' then (- 1, cs)
                  else if c = CHR ''+'' then (1, cs) else (1, s)))"

definition parse_radix :: "string \<Rightarrow> nat \<times> string" where
  "parse_radix s =
     (case s of
        a # b # cs \<Rightarrow> (if a = CHR ''0'' \<and> (b = CHR ''x'' \<or> b = CHR ''X'') then (16, cs)
                      else (10, s))
      | _ \<Rightarrow> (10, s))"

definition parse_int_str :: "string \<Rightarrow> jsval" where
  "parse_int_str s =
     (let (sign, s2) = parse_sign (dropWhile is_ws s);
          (r, s3) = parse_radix s2
      in case digits r None s3 of
           None \<Rightarrow> JNaN
         | Some n \<Rightarrow> to_number sign n)"

text \<open>
  \<^verbatim>\<open>parseInt\<close> first converts its argument to a string. Below \<open>10^21\<close> the string of a
  number is a decimal numeral that reads back as the same double; from \<open>10^21\<close> on it
  has an exponent, and \<^verbatim>\<open>parseInt\<close> reads the digit before the point only:
  \<^verbatim>\<open>parseInt(1e21)\<close> is 1. The strings of the other non-string scalars (\<^verbatim>\<open>"undefined"\<close>,
  \<^verbatim>\<open>"null"\<close>, \<^verbatim>\<open>"true"\<close>, \<^verbatim>\<open>"false"\<close>, \<^verbatim>\<open>"NaN"\<close>, \<^verbatim>\<open>"Infinity"\<close>) start with no digit.
\<close>

definition parse_int_num :: "int \<Rightarrow> jsval" where
  "parse_int_num n =
     (let x = round_double (nat \<bar>n\<bar>)
      in if 2 ^ 1024 \<le> x then JNaN
         else if x < 10 ^ 21 then JNum (sgn n * int x)
         else JNum (sgn n * int (lead_digit x)))"

fun parseInt :: "jsval \<Rightarrow> jsval" where
  "parseInt (JStr s) = parse_int_str s"
| "parseInt (JNum n) = parse_int_num n"
| "parseInt v = JNaN"

subsection \<open>Request bodies\<close>

text \<open>
  \<^verbatim>\<open>req.body\<close> is the parsed JSON object; reading a field it does not have gives
  \<^verbatim>\<open>undefined\<close>.
\<close>

type_synonym body = "(string \<times> jsval) list"

definition field :: "body \<Rightarrow> string \<Rightarrow> jsval" where
  "field b k = (case map_of b k of None \<Rightarrow> JUndefined | Some v \<Rightarrow> v)"

subsection \<open>Collections\<close>

text \<open>
  A document of \<^verbatim>\<open>chapter_locks\<close>. Every write to the collection is the upsert of the
  grant paths, which stores exactly these five fields. Times are milliseconds.
\<close>

record lease =
  userId :: jsval
  contentId :: jsval
  chapterId :: jsval
  unlockedAt :: int
  expiresAt :: int

record user =
  id_user :: jsval
  type_user :: string
  created_at :: int
  last_seen :: int

text \<open>
  A document of \<^verbatim>\<open>chapters\<close>; a field the document does not have is \<open>JUndefined\<close>
  (\<open>None\<close> for the page array).
\<close>

record chapter_doc =
  c_contentId :: jsval
  c_chapterId :: jsval
  c_normalizedTitle :: jsval
  c_title :: jsval
  c_pages :: "jsval list option"
  c_content :: jsval

type_synonym doc = "(string \<times> jsval) list"

record database =
  chapter_locks :: "lease list"
  users :: "user list"
  chapters :: "chapter_doc list"
  content :: "doc list"
  ads_config :: "doc list"
  uploads :: "doc list"

subsection \<open>Store operations\<close>

text \<open>
  \<^verbatim>\<open>findOne\<close> returns the first match, \<^verbatim>\<open>find\<close> all of them, \<^verbatim>\<open>updateOne\<close> changes the
  first match and, with \<^verbatim>\<open>upsert\<close>, inserts a new document when there is none;
  \<^verbatim>\<open>deleteMany\<close> removes every match and counts them.
\<close>

definition findOne :: "('a \<Rightarrow> bool) \<Rightarrow> 'a list \<Rightarrow> 'a option" where
  "findOne P xs = List.find P xs"

definition find_all :: "('a \<Rightarrow> bool) \<Rightarrow> 'a list \<Rightarrow> 'a list" where
  "find_all P xs = filter P xs"

fun updateOne :: "('a \<Rightarrow> bool) \<Rightarrow> ('a \<Rightarrow> 'a) \<Rightarrow> 'a list \<Rightarrow> 'a list" where
  "updateOne P f [] = []"
| "updateOne P f (x # xs) = (if P x then f x # xs else x # updateOne P f xs)"

definition upsertOne :: "('a \<Rightarrow> bool) \<Rightarrow> ('a \<Rightarrow> 'a) \<Rightarrow> 'a \<Rightarrow> 'a list \<Rightarrow> 'a list" where
  "upsertOne P f new xs = (if list_ex P xs then updateOne P f xs else xs @ [f new])"

definition deleteMany :: "('a \<Rightarrow> bool) \<Rightarrow> 'a list \<Rightarrow> 'a list \<times> nat" where
  "deleteMany P xs = (filter (\<lambda>x. \<not> P x) xs, length (filter P xs))"

text \<open>
  A store call can reject (the connection drops, the server errors). The calls that
  reject during one request are a parameter of its handler.
\<close>

datatype store_call =
  LocksFindOne | LocksFind | LocksUpdateOne | LocksDeleteMany | UsersUpdateOne | ChaptersFindOne

subsection \<open>Responses and the console\<close>

datatype reply =
  Error string
| Unlocked bool
| UnlockSuccess int
| LocksRefreshed nat
| Locks "lease list"
| AdSuccess
| ChapterPayload jsval "jsval list" jsval
| TimerStarted nat

datatype log_entry =
  ConsoleError string
| AutoCleaned nat
| AutoUnlocked jsval jsval jsval

text \<open>
  What a handler leaves behind: the global \<^verbatim>\<open>db\<close> (\<open>None\<close> while not connected), the
  HTTP status and JSON body it sent, and what it wrote to the console.
\<close>

record outcome =
  db :: "database option"
  status :: nat
  reply :: reply
  logged :: "log_entry list"

definition respond :: "database option \<Rightarrow> nat \<Rightarrow> reply \<Rightarrow> outcome" where
  "respond d s r = \<lparr>db = d, status = s, reply = r, logged = []\<rparr>"

definition caught :: "database option \<Rightarrow> string \<Rightarrow> string \<Rightarrow> outcome" where
  "caught d msg err =
     \<lparr>db = d, status = 500, reply = Error err, logged = [ConsoleError msg]\<rparr>"

definition unavailable :: "database option \<Rightarrow> outcome" where
  "unavailable d = respond d 503 (Error ''Database not available'')"

section \<open>Chapter lock endpoints\<close>

text \<open>The filter \<^verbatim>\<open>{ userId, contentId, chapterId }\<close> of a lease.\<close>

definition lock_key :: "jsval \<Rightarrow> jsval \<Rightarrow> jsval \<Rightarrow> lease \<Rightarrow> bool" where
  "lock_key u c ch l = (userId l = bson u \<and> contentId l = bson c \<and> chapterId l = bson ch)"

text \<open>The same filter with \<^verbatim>\<open>expiresAt: { $gt: new Date() }\<close>.\<close>

definition active_lock :: "jsval \<Rightarrow> jsval \<Rightarrow> jsval \<Rightarrow> int \<Rightarrow> lease \<Rightarrow> bool" where
  "active_lock u c ch now l = (lock_key u c ch l \<and> expiresAt l > now)"

text \<open>
  The upsert of every grant path: \<^verbatim>\<open>$set\<close> of \<^verbatim>\<open>unlockedAt\<close> and \<^verbatim>\<open>expiresAt\<close> on the first
  lease of the key, or a new lease made of the filter's fields and the \<^verbatim>\<open>$set\<close>.
\<close>

definition set_times :: "int \<Rightarrow> int \<Rightarrow> lease \<Rightarrow> lease" where
  "set_times t_unlocked t_expires l = l\<lparr>unlockedAt := t_unlocked, expiresAt := t_expires\<rparr>"

definition upsert_lock :: "jsval \<Rightarrow> jsval \<Rightarrow> jsval \<Rightarrow> int \<Rightarrow> int \<Rightarrow> lease list \<Rightarrow> lease list" where
  "upsert_lock u c ch t_unlocked t_expires ls =
     upsertOne (lock_key u c ch) (set_times t_unlocked t_expires)
       \<lparr>userId = bson u, contentId = bson c, chapterId = bson ch,
        unlockedAt = t_unlocked, expiresAt = t_expires\<rparr> ls"

definition touch_user :: "jsval \<Rightarrow> int \<Rightarrow> user list \<Rightarrow> user list" where
  "touch_user u t us = updateOne (\<lambda>x. id_user x = bson u) (\<lambda>x. x\<lparr>last_seen := t\<rparr>) us"

text \<open>\<^verbatim>\<open>GET /api/check-unlock/:userId/:contentId/:chapterId\<close>, read at clock \<open>now\<close>.\<close>

definition check_unlock ::
  "store_call list \<Rightarrow> int \<Rightarrow> database option \<Rightarrow> string \<Rightarrow> string \<Rightarrow> string \<Rightarrow> outcome" where
  "check_unlock fl now d uid cid chid =
     (case d of
        None \<Rightarrow> unavailable d
      | Some dbs \<Rightarrow>
          if LocksFindOne \<in> set fl
          then caught d ''Error checking chapter lock:'' ''Failed to check chapter lock''
          else
            let lock = findOne (active_lock (JStr uid) (parseInt (JStr cid)) (JStr chid) now)
                         (chapter_locks dbs)
            in respond d 200 (Unlocked (lock \<noteq> None)))"

text \<open>
  \<^verbatim>\<open>POST /api/unlock-chapter\<close>. The handler reads the clock three times: \<open>ta\<close> for
  \<^verbatim>\<open>expiresAt\<close>, \<open>tb\<close> for \<^verbatim>\<open>unlockedAt\<close>, \<open>tc\<close> for \<^verbatim>\<open>last_seen\<close>.
\<close>

definition lease_ms :: int where
  "lease_ms = 10 * 60 * 1000"

definition unlock_chapter ::
  "store_call list \<Rightarrow> int \<Rightarrow> int \<Rightarrow> int \<Rightarrow> database option \<Rightarrow> body \<Rightarrow> outcome" where
  "unlock_chapter fl ta tb tc d b =
     (case d of
        None \<Rightarrow> unavailable d
      | Some dbs \<Rightarrow>
          let uid = field b ''userId''; cid = field b ''contentId''; chid = field b ''chapterId''
          in if \<not> truthy uid \<or> \<not> truthy cid \<or> \<not> truthy chid
             then respond d 400 (Error ''Missing required fields'')
             else
               let expires = ta + lease_ms
               in if LocksUpdateOne \<in> set fl
                  then caught d ''Error unlocking chapter:'' ''Failed to unlock chapter''
                  else
                    let d1 = dbs\<lparr>chapter_locks :=
                                 upsert_lock uid (parseInt cid) chid tb expires (chapter_locks dbs)\<rparr>
                    in if UsersUpdateOne \<in> set fl
                       then caught (Some d1) ''Error unlocking chapter:'' ''Failed to unlock chapter''
                       else
                         respond (Some (d1\<lparr>users := touch_user uid tc (users d1)\<rparr>)) 200
                           (UnlockSuccess expires))"

text \<open>\<^verbatim>\<open>POST /api/refresh-chapter-locks\<close>: \<^verbatim>\<open>deleteMany({})\<close>.\<close>

definition refresh_chapter_locks :: "store_call list \<Rightarrow> database option \<Rightarrow> outcome" where
  "refresh_chapter_locks fl d =
     (case d of
        None \<Rightarrow> unavailable d
      | Some dbs \<Rightarrow>
          if LocksDeleteMany \<in> set fl
          then caught d ''Error refreshing chapter locks:'' ''Failed to refresh chapter locks''
          else
            let (ls, deletedCount) = deleteMany (\<lambda>l. True) (chapter_locks dbs)
            in respond (Some (dbs\<lparr>chapter_locks := ls\<rparr>)) 200 (LocksRefreshed deletedCount))"

text \<open>\<^verbatim>\<open>GET /api/user-locks/:userId\<close>.\<close>

definition user_locks :: "store_call list \<Rightarrow> int \<Rightarrow> database option \<Rightarrow> string \<Rightarrow> outcome" where
  "user_locks fl now d uid =
     (case d of
        None \<Rightarrow> unavailable d
      | Some dbs \<Rightarrow>
          if LocksFind \<in> set fl
          then caught d ''Error fetching user locks:'' ''Failed to fetch user locks''
          else
            let locks = find_all (\<lambda>l. userId l = JStr uid \<and> expiresAt l > now) (chapter_locks dbs)
            in respond d 200 (Locks locks))"

text \<open>
  \<^verbatim>\<open>POST /ads-complete\<close>. The lease is keyed by the body's \<^verbatim>\<open>manga\<close> as it is, with no
  \<^verbatim>\<open>parseInt\<close>.
\<close>

definition ads_complete ::
  "store_call list \<Rightarrow> int \<Rightarrow> int \<Rightarrow> int \<Rightarrow> database option \<Rightarrow> body \<Rightarrow> outcome" where
  "ads_complete fl ta tb tc d b =
     (case d of
        None \<Rightarrow> unavailable d
      | Some dbs \<Rightarrow>
          let uid = field b ''userId''; manga = field b ''manga''; chid = field b ''chapterId''
          in if \<not> truthy uid \<or> \<not> truthy manga \<or> \<not> truthy chid
             then respond d 400 (Error ''Missing required fields'')
             else
               let expires = ta + lease_ms
               in if LocksUpdateOne \<in> set fl
                  then caught d ''Error in ad completion:'' ''Internal server error''
                  else
                    let d1 = dbs\<lparr>chapter_locks :=
                                 upsert_lock uid manga chid tb expires (chapter_locks dbs)\<rparr>
                    in if UsersUpdateOne \<in> set fl
                       then caught (Some d1) ''Error in ad completion:'' ''Internal server error''
                       else
                         respond (Some (d1\<lparr>users := touch_user uid tc (users d1)\<rparr>)) 200
                           AdSuccess)"

text \<open>
  \<^verbatim>\<open>GET /chapter/:manga/:chapterId\<close>, the gated read. \<open>user_q\<close> is \<^verbatim>\<open>req.query.user\<close>.
\<close>

definition chapter_payload :: "chapter_doc \<Rightarrow> reply" where
  "chapter_payload c =
     ChapterPayload (c_title c)
       (case c_pages c of None \<Rightarrow> [] | Some ps \<Rightarrow> ps)
       (if truthy (c_content c) then c_content c else JNull)"

definition chapter_gate ::
  "store_call list \<Rightarrow> int \<Rightarrow> database option \<Rightarrow> string \<Rightarrow> string \<Rightarrow> jsval \<Rightarrow> outcome" where
  "chapter_gate fl now d manga chid user_q =
     (case d of
        None \<Rightarrow> unavailable d
      | Some dbs \<Rightarrow>
          let uid = (if truthy user_q then user_q else JStr ''guest'')
          in if LocksFindOne \<in> set fl
             then caught d ''Error fetching chapter:'' ''Internal server error''
             else
               case findOne (active_lock uid (JStr manga) (JStr chid) now) (chapter_locks dbs) of
                 None \<Rightarrow>
                   respond d 402 (Error ''Chapter locked. Please watch an ad to unlock.'')
               | Some unlockRecord \<Rightarrow>
                   if ChaptersFindOne \<in> set fl
                   then caught d ''Error fetching chapter:'' ''Internal server error''
                   else
                     case findOne (\<lambda>c. c_normalizedTitle c = JStr manga \<and> c_chapterId c = JStr chid)
                            (chapters dbs) of
                       Some c \<Rightarrow> respond d 200 (chapter_payload c)
                     | None \<Rightarrow> respond d 404 (Error ''Chapter not found''))"

subsection \<open>Timers\<close>

text \<open>
  \<^verbatim>\<open>POST /api/start-chapter-timer\<close> calls \<^verbatim>\<open>setTimeout\<close> with a closure over the three
  body fields and answers at once. A pending timer is the time from which the event loop
  may run it and the values its closure holds.
\<close>

record timer =
  due :: int
  t_userId :: jsval
  t_contentId :: jsval
  t_chapterId :: jsval

definition timer_ms :: int where
  "timer_ms = 40000"

definition start_chapter_timer ::
  "int \<Rightarrow> database option \<Rightarrow> timer list \<Rightarrow> body \<Rightarrow> outcome \<times> timer list" where
  "start_chapter_timer now d ts b =
     (case d of
        None \<Rightarrow> (unavailable d, ts)
      | Some dbs \<Rightarrow>
          let uid = field b ''userId''; cid = field b ''contentId''; chid = field b ''chapterId''
          in (respond d 200 (TimerStarted 40000),
              ts @ [\<lparr>due = now + timer_ms, t_userId = uid, t_contentId = cid,
                     t_chapterId = chid\<rparr>]))"

text \<open>
  The timer's callback, run with clock readings \<open>ta\<close> (for \<^verbatim>\<open>expiresAt\<close>) and \<open>tb\<close> (for
  \<^verbatim>\<open>unlockedAt\<close>). Its own \<^verbatim>\<open>try\<close>/\<^verbatim>\<open>catch\<close> logs every failure.
\<close>

definition timer_callback ::
  "store_call list \<Rightarrow> int \<Rightarrow> int \<Rightarrow> database option \<Rightarrow> timer \<Rightarrow> database option \<times> log_entry list" where
  "timer_callback fl ta tb d tm =
     (case d of
        None \<Rightarrow> (d, [ConsoleError ''Error auto-unlocking chapter:''])
      | Some dbs \<Rightarrow>
          let expires = ta + lease_ms
          in if LocksUpdateOne \<in> set fl
             then (d, [ConsoleError ''Error auto-unlocking chapter:''])
             else
               (Some (dbs\<lparr>chapter_locks :=
                       upsert_lock (t_userId tm) (parseInt (t_contentId tm)) (t_chapterId tm)
                         tb expires (chapter_locks dbs)\<rparr>),
                [AutoUnlocked (t_contentId tm) (t_chapterId tm) (t_userId tm)]))"

text \<open>
  The periodic task of \<^verbatim>\<open>setInterval(..., 60000)\<close>, run with clock reading \<open>now\<close>:
  \<^verbatim>\<open>deleteMany({ expiresAt: { $lt: new Date() } })\<close>.
\<close>

definition sweep_ms :: int where
  "sweep_ms = 60000"

definition sweeper ::
  "store_call list \<Rightarrow> int \<Rightarrow> database option \<Rightarrow> database option \<times> log_entry list" where
  "sweeper fl now d =
     (case d of
        None \<Rightarrow> (d, [])
      | Some dbs \<Rightarrow>
          if LocksDeleteMany \<in> set fl
          then (d, [ConsoleError ''Error auto-cleaning chapter locks:''])
          else
            let (ls, deletedCount) = deleteMany (\<lambda>l. expiresAt l < now) (chapter_locks dbs)
            in (Some (dbs\<lparr>chapter_locks := ls\<rparr>),
                if deletedCount > 0 then [AutoCleaned deletedCount] else []))"

section \<open>The server as a state machine\<close>

text \<open>
  The process state that the lock endpoints share: the database handle and the pending
  timers.
\<close>

record server =
  store :: "database option"
  pending :: "timer list"

text \<open>
  What can happen to it: a request to one of the lock endpoints, the event loop running
  a pending timer that is due, a run of the periodic sweeper, and a pass of the
  database's own TTL monitor over the index \<^verbatim>\<open>{ expiresAt: 1 }\<close> with
  \<^verbatim>\<open>expireAfterSeconds: 0\<close>, which removes the leases whose \<^verbatim>\<open>expiresAt\<close> is not after its
  clock. No other handler of the file touches \<^verbatim>\<open>chapter_locks\<close>.
\<close>

datatype event =
  CheckUnlock "store_call list" int string string string
| UnlockChapter "store_call list" int int int body
| RefreshChapterLocks "store_call list"
| UserLocks "store_call list" int string
| AdsComplete "store_call list" int int int body
| ChapterGate "store_call list" int string string jsval
| StartChapterTimer int body
| TimerFires "store_call list" int int
| Sweep "store_call list" int
| TtlMonitor int

definition ttl_monitor :: "int \<Rightarrow> database option \<Rightarrow> database option" where
  "ttl_monitor now d =
     (case d of
        None \<Rightarrow> None
      | Some dbs \<Rightarrow>
          Some (dbs\<lparr>chapter_locks := fst (deleteMany (\<lambda>l. expiresAt l \<le> now) (chapter_locks dbs))\<rparr>))"

text \<open>The event loop runs the first pending timer whose delay has elapsed at \<open>ta\<close>.\<close>

definition timer_fires :: "store_call list \<Rightarrow> int \<Rightarrow> int \<Rightarrow> server \<Rightarrow> server" where
  "timer_fires fl ta tb s =
     (case List.find (\<lambda>tm. due tm \<le> ta) (pending s) of
        None \<Rightarrow> s
      | Some tm \<Rightarrow>
          \<lparr>store = fst (timer_callback fl ta tb (store s) tm),
           pending = remove1 tm (pending s)\<rparr>)"

fun step :: "event \<Rightarrow> server \<Rightarrow> server" where
  "step (CheckUnlock fl now uid cid chid) s =
     s\<lparr>store := db (check_unlock fl now (store s) uid cid chid)\<rparr>"
| "step (UnlockChapter fl ta tb tc b) s =
     s\<lparr>store := db (unlock_chapter fl ta tb tc (store s) b)\<rparr>"
| "step (RefreshChapterLocks fl) s =
     s\<lparr>store := db (refresh_chapter_locks fl (store s))\<rparr>"
| "step (UserLocks fl now uid) s =
     s\<lparr>store := db (user_locks fl now (store s) uid)\<rparr>"
| "step (AdsComplete fl ta tb tc b) s =
     s\<lparr>store := db (ads_complete fl ta tb tc (store s) b)\<rparr>"
| "step (ChapterGate fl now manga chid user_q) s =
     s\<lparr>store := db (chapter_gate fl now (store s) manga chid user_q)\<rparr>"
| "step (StartChapterTimer now b) s =
     s\<lparr>pending := snd (start_chapter_timer now (store s) (pending s) b)\<rparr>"
| "step (TimerFires fl ta tb) s = timer_fires fl ta tb s"
| "step (Sweep fl now) s = s\<lparr>store := fst (sweeper fl now (store s))\<rparr>"
| "step (TtlMonitor now) s = s\<lparr>store := ttl_monitor now (store s)\<rparr>"

fun run :: "event list \<Rightarrow> server \<Rightarrow> server" where
  "run [] s = s"
| "run (e # es) s = run es (step e s)"

text \<open>
  The events that grant no lease and start no timer, and that run a pending timer only
  at a time before \<open>lim\<close>: the reads, the reset, the sweeper, the TTL monitor and the
  earlier turns of the event loop.
\<close>

fun idle_before :: "int \<Rightarrow> event \<Rightarrow> bool" where
  "idle_before lim (UnlockChapter fl ta tb tc b) = False"
| "idle_before lim (AdsComplete fl ta tb tc b) = False"
| "idle_before lim (StartChapterTimer now b) = False"
| "idle_before lim (TimerFires fl ta tb) = (ta < lim)"
| "idle_before lim e = True"

text \<open>The leases of a database handle, none while it is not connected.\<close>

definition locks_of :: "database option \<Rightarrow> lease list" where
  "locks_of d = (case d of None \<Rightarrow> [] | Some dbs \<Rightarrow> chapter_locks dbs)"

text \<open>The triple that identifies a lease, and the invariant of the collection.\<close>

definition triple :: "lease \<Rightarrow> jsval \<times> jsval \<times> jsval" where
  "triple l = (userId l, contentId l, chapterId l)"

definition one_per_triple :: "lease list \<Rightarrow> bool" where
  "one_per_triple ls = distinct (map triple ls)"

text \<open>What \<^verbatim>\<open>GET /api/check-unlock\<close> answers for a connected, healthy store.\<close>

definition IsActive :: "int \<Rightarrow> database option \<Rightarrow> string \<Rightarrow> string \<Rightarrow> string \<Rightarrow> reply" where
  "IsActive now d uid cid chid = reply (check_unlock [] now d uid cid chid)"

definition empty_db :: database where
  "empty_db = \<lparr>chapter_locks = [], users = [], chapters = [], content = [], ads_config = [],
               uploads = []\<rparr>"

section \<open>Reading numbers\<close>

lemmas parse_defs =
  parse_int_str_def parse_sign_def parse_radix_def digit_of_def is_ws_def to_number_def
  round_double_def parse_int_num_def

lemma parse_int_num_small: "\<bar>n\<bar> < 2 ^ 53 \<Longrightarrow> parse_int_num n = JNum n"
proof -
  assume a: "\<bar>n\<bar> < 2 ^ 53"
  then have b: "nat \<bar>n\<bar> < 2 ^ 53"
    by (simp add: nat_less_iff)
  have "(2::nat) ^ 53 < 10 ^ 21" "(2::nat) ^ 53 < 2 ^ 1024"
    by simp_all
  with b have c: "nat \<bar>n\<bar> < 10 ^ 21" "nat \<bar>n\<bar> < 2 ^ 1024"
    by linarith+
  have "sgn n * int (nat \<bar>n\<bar>) = n"
    by (simp add: mult_sgn_abs)
  with b c show ?thesis
    unfolding parse_int_num_def round_double_def Let_def
    by (simp only: if_True if_False not_le [symmetric] simp_thms)
qed

text \<open>The rounding at work: at the exponent form, at a round value, at \<open>2^53 + 1\<close>.\<close>

lemma parseInt_exponent: "parseInt (JNum 1000000000000000000000) = JNum 1"
  by (simp add: parse_defs bitlen.simps declen.simps lead_digit_def Let_def)

lemma parseInt_nearest_round: "parseInt (JNum 99999999999999991611392) = JNum 1"
  by (simp add: parse_defs bitlen.simps declen.simps lead_digit_def Let_def)

lemma parseInt_rounds: "parseInt (JStr ''9007199254740993'') = JNum 9007199254740992"
  by (simp add: parse_defs bitlen.simps Let_def)

section \<open>Grant, then check\<close>

lemma findOne_Some_iff: "(findOne P xs \<noteq> None) = (\<exists>x\<in>set xs. P x)"
  by (auto simp: findOne_def find_None_iff)

lemma findOne_ex: "(\<exists>y. findOne P xs = Some y) = (\<exists>x\<in>set xs. P x)"
  using findOne_Some_iff [of P xs] by auto

lemma lock_key_triple: "lock_key u c ch l = (triple l = (bson u, bson c, bson ch))"
  by (auto simp: lock_key_def triple_def)

lemma triple_set_times [simp]: "triple (set_times tu te l) = triple l"
  by (simp add: triple_def set_times_def)

lemma map_triple_updateOne:
  "(\<And>x. triple (f x) = triple x) \<Longrightarrow> map triple (updateOne P f ls) = map triple ls"
  by (induction ls) auto

lemma one_per_triple_upsert:
  "one_per_triple ls \<Longrightarrow> one_per_triple (upsert_lock u c ch tu te ls)"
  by (auto simp: one_per_triple_def upsert_lock_def upsertOne_def map_triple_updateOne
      list_ex_iff lock_key_triple triple_def set_times_def)

lemma updateOne_other:
  "\<not> P l \<Longrightarrow> (\<And>x. P x \<Longrightarrow> P (f x)) \<Longrightarrow> (l \<in> set (updateOne P f ls)) = (l \<in> set ls)"
  by (induction ls) auto

lemma updateOne_hit:
  "distinct (map k ls) \<Longrightarrow> (\<And>x. P x = (k x = v)) \<Longrightarrow> (\<And>x. k (f x) = k x) \<Longrightarrow>
   l \<in> set (updateOne P f ls) \<Longrightarrow> P l \<Longrightarrow> \<exists>x\<in>set ls. P x \<and> l = f x"
proof (induction ls)
  case Nil
  then show ?case by simp
next
  case (Cons a ls)
  show ?case
  proof (cases "P a")
    case True
    with Cons.prems show ?thesis by (auto simp: image_iff)
  next
    case False
    with Cons show ?thesis by auto
  qed
qed


lemma upsert_lock_has: "\<exists>l\<in>set (upsert_lock u c ch tu te ls). lock_key u c ch l \<and> unlockedAt l = tu \<and> expiresAt l = te"
proof (cases "list_ex (lock_key u c ch) ls")
  case True
  have "\<exists>l\<in>set (updateOne (lock_key u c ch) (set_times tu te) ls).
          lock_key u c ch l \<and> unlockedAt l = tu \<and> expiresAt l = te"
    using True by (induction ls) (auto simp: lock_key_def set_times_def)
  with True show ?thesis by (simp add: upsert_lock_def upsertOne_def)
next
  case False
  then show ?thesis
    by (simp add: upsert_lock_def upsertOne_def lock_key_def set_times_def)
qed

lemma upsert_lock_times:
  assumes "one_per_triple ls" "l \<in> set (upsert_lock u c ch tu te ls)" "lock_key u c ch l"
  shows "unlockedAt l = tu \<and> expiresAt l = te"
proof (cases "list_ex (lock_key u c ch) ls")
  case True
  with assms(2) have "l \<in> set (updateOne (lock_key u c ch) (set_times tu te) ls)"
    by (simp add: upsert_lock_def upsertOne_def)
  with assms(1,3) have "\<exists>x\<in>set ls. lock_key u c ch x \<and> l = set_times tu te x"
    unfolding one_per_triple_def
    by (intro updateOne_hit [where k = triple and v = "(bson u, bson c, bson ch)"
            and P = "lock_key u c ch"])
       (simp_all add: lock_key_triple)
  then show ?thesis by (auto simp: set_times_def)
next
  case False
  with assms(2,3) show ?thesis
    by (auto simp: upsert_lock_def upsertOne_def list_ex_iff set_times_def)
qed

lemma upsert_lock_other:
  "\<not> lock_key u c ch l \<Longrightarrow> (l \<in> set (upsert_lock u c ch tu te ls)) = (l \<in> set ls)"
proof -
  assume n: "\<not> lock_key u c ch l"
  have k: "\<And>x. lock_key u c ch x \<Longrightarrow> lock_key u c ch (set_times tu te x)"
    by (simp add: lock_key_triple)
  have "lock_key u c ch (set_times tu te
          \<lparr>userId = bson u, contentId = bson c, chapterId = bson ch, unlockedAt = tu,
           expiresAt = te\<rparr>)"
    by (simp add: lock_key_def set_times_def)
  with n have "l \<noteq> set_times tu te
          \<lparr>userId = bson u, contentId = bson c, chapterId = bson ch, unlockedAt = tu,
           expiresAt = te\<rparr>"
    by auto
  with n k show ?thesis
    by (simp add: upsert_lock_def upsertOne_def updateOne_other)
qed


lemma unlock_chapter_granted:
  assumes "truthy (field b ''userId'')" "truthy (field b ''contentId'')"
    "truthy (field b ''chapterId'')" "LocksUpdateOne \<notin> set fl" "UsersUpdateOne \<notin> set fl"
  shows "unlock_chapter fl ta tb tc (Some dbs) b =
     respond (Some (dbs\<lparr>chapter_locks :=
         upsert_lock (field b ''userId'') (parseInt (field b ''contentId'')) (field b ''chapterId'')
           tb (ta + 600000) (chapter_locks dbs),
       users := touch_user (field b ''userId'') tc (users dbs)\<rparr>)) 200 (UnlockSuccess (ta + 600000))"
  using assms by (simp add: unlock_chapter_def Let_def lease_ms_def)

lemma IsActive_iff:
  "IsActive now (Some dbs) uid cid chid =
     Unlocked (\<exists>l\<in>set (chapter_locks dbs).
        lock_key (JStr uid) (parseInt (JStr cid)) (JStr chid) l \<and> now < expiresAt l)"
  by (simp add: IsActive_def check_unlock_def respond_def findOne_ex active_lock_def Let_def)

text \<open>
  Claim C1, as the code has it. The check endpoint can only name a triple by three path
  strings, and the grant stores \<^verbatim>\<open>userId\<close> and \<^verbatim>\<open>chapterId\<close> as the body has them. For a
  grant through \<^verbatim>\<open>POST /api/unlock-chapter\<close> whose \<^verbatim>\<open>userId\<close> and \<^verbatim>\<open>chapterId\<close> are non-empty
  strings and whose \<^verbatim>\<open>contentId\<close> is truthy and parses to the same number as the path
  parameter, on a collection with at most one lease per triple and with both store calls
  succeeding: the answer is 200, the triple has a lease with \<^verbatim>\<open>expiresAt\<close> 600000 ms
  after the clock reading \<open>ta\<close> and \<^verbatim>\<open>unlockedAt\<close> the reading \<open>tb\<close>, and
  \<^verbatim>\<open>GET /api/check-unlock\<close> for the three strings answers true at every time before
  \<^verbatim>\<open>expiresAt\<close> and false at every time from \<^verbatim>\<open>expiresAt\<close> on, hence (the clock not running
  backwards between the two readings) at every time from \<^verbatim>\<open>unlockedAt\<close> + 600000 on.
\<close>

theorem grant_then_check:
  assumes inv: "one_per_triple (chapter_locks dbs)"
    and u: "field b ''userId'' = JStr uid" "uid \<noteq> []"
    and c: "field b ''contentId'' = cv" "truthy cv" "parseInt cv = parseInt (JStr cid)"
    and ch: "field b ''chapterId'' = JStr chid" "chid \<noteq> []"
    and ok: "LocksUpdateOne \<notin> set fl" "UsersUpdateOne \<notin> set fl"
    and g: "g = unlock_chapter fl ta tb tc (Some dbs) b"
  shows "status g = 200 \<and> reply g = UnlockSuccess (ta + 600000) \<and>
     (\<exists>l\<in>set (locks_of (db g)).
        lock_key (JStr uid) (parseInt cv) (JStr chid) l \<and>
        unlockedAt l = tb \<and> expiresAt l = ta + 600000) \<and>
     (\<forall>now. now < ta + 600000 \<longrightarrow> IsActive now (db g) uid cid chid = Unlocked True) \<and>
     (\<forall>now. ta + 600000 \<le> now \<longrightarrow> IsActive now (db g) uid cid chid = Unlocked False) \<and>
     (ta \<le> tb \<longrightarrow>
        (\<forall>now. tb + 600000 \<le> now \<longrightarrow> IsActive now (db g) uid cid chid = Unlocked False))"
proof -
  let ?ls = "upsert_lock (JStr uid) (parseInt (JStr cid)) (JStr chid) tb (ta + 600000)
               (chapter_locks dbs)"
  have r: "g = respond (Some (dbs\<lparr>chapter_locks := ?ls,
                users := touch_user (JStr uid) tc (users dbs)\<rparr>)) 200
              (UnlockSuccess (ta + 600000))"
    using unlock_chapter_granted [of b fl ta tb tc dbs] u c ch ok g by simp
  have locks: "locks_of (db g) = ?ls"
    by (simp add: r respond_def locks_of_def)
  obtain l where l: "l \<in> set ?ls" "lock_key (JStr uid) (parseInt (JStr cid)) (JStr chid) l"
      "unlockedAt l = tb" "expiresAt l = ta + 600000"
    using upsert_lock_has by blast
  have only: "\<And>x. x \<in> set ?ls \<Longrightarrow> lock_key (JStr uid) (parseInt (JStr cid)) (JStr chid) x \<Longrightarrow>
      expiresAt x = ta + 600000"
    using upsert_lock_times [OF inv] by blast
  have act: "\<And>now. IsActive now (db g) uid cid chid = Unlocked (now < ta + 600000)"
  proof -
    fix now
    have "(\<exists>x\<in>set ?ls. lock_key (JStr uid) (parseInt (JStr cid)) (JStr chid) x \<and> now < expiresAt x)
        = (now < ta + 600000)"
      using l only by auto
    then show "IsActive now (db g) uid cid chid = Unlocked (now < ta + 600000)"
      by (simp add: r respond_def IsActive_iff)
  qed
  have "status g = 200" "reply g = UnlockSuccess (ta + 600000)"
    by (simp_all add: r respond_def)
  moreover have "\<exists>l\<in>set (locks_of (db g)).
        lock_key (JStr uid) (parseInt cv) (JStr chid) l \<and>
        unlockedAt l = tb \<and> expiresAt l = ta + 600000"
    using l c(3) locks by auto
  ultimately show ?thesis
    by (simp add: act)
qed

text \<open>
  The scenario of the specification: a grant for \<open>("guest_1", 42, "3")\<close> at time 0 is
  active at 599999 ms and no longer at 600000 ms.
\<close>

theorem grant_then_check_witness:
  "IsActive 0 (db (unlock_chapter [] 0 0 0 (Some empty_db)
       [(''userId'', JStr ''guest_1''), (''contentId'', JNum 42), (''chapterId'', JStr ''3'')]))
       ''guest_1'' ''42'' ''3'' = Unlocked True \<and>
   IsActive 599999 (db (unlock_chapter [] 0 0 0 (Some empty_db)
       [(''userId'', JStr ''guest_1''), (''contentId'', JNum 42), (''chapterId'', JStr ''3'')]))
       ''guest_1'' ''42'' ''3'' = Unlocked True \<and>
   IsActive 600000 (db (unlock_chapter [] 0 0 0 (Some empty_db)
       [(''userId'', JStr ''guest_1''), (''contentId'', JNum 42), (''chapterId'', JStr ''3'')]))
       ''guest_1'' ''42'' ''3'' = Unlocked False \<and>
   IsActive 600001 (db (unlock_chapter [] 0 0 0 (Some empty_db)
       [(''userId'', JStr ''guest_1''), (''contentId'', JNum 42), (''chapterId'', JStr ''3'')]))
       ''guest_1'' ''42'' ''3'' = Unlocked False"
proof -
  have p: "parseInt (JNum 42) = parseInt (JStr ''42'')"
    by (simp add: parse_defs)
  have i: "one_per_triple (chapter_locks empty_db)"
    by (simp add: one_per_triple_def empty_db_def)
  show ?thesis
    using grant_then_check [where dbs = empty_db and uid = "''guest_1''" and cid = "''42''"
        and chid = "''3''" and cv = "JNum 42" and fl = "[]" and ta = 0 and tb = 0 and tc = 0
        and b = "[(''userId'', JStr ''guest_1''), (''contentId'', JNum 42),
                  (''chapterId'', JStr ''3'')]", OF i _ _ _ _ p]
    by (simp add: field_def)
qed

text \<open>
  Claim C1 as stated, for every triple, fails: the handler tests the three fields for
  truthiness only, so a grant whose \<^verbatim>\<open>chapterId\<close> is the number 3 answers 200 and stores
  the number, and the check for \<^verbatim>\<open>/api/check-unlock/guest_1/42/3\<close>, which looks for the
  string, answers false while the lease is running.
\<close>

theorem numeric_chapter_grant_unseen:
  "status (unlock_chapter [] 0 0 0 (Some empty_db)
     [(''userId'', JStr ''guest_1''), (''contentId'', JNum 42), (''chapterId'', JNum 3)]) = 200 \<and>
   locks_of (db (unlock_chapter [] 0 0 0 (Some empty_db)
     [(''userId'', JStr ''guest_1''), (''contentId'', JNum 42), (''chapterId'', JNum 3)])) =
     [\<lparr>userId = JStr ''guest_1'', contentId = JNum 42, chapterId = JNum 3,
       unlockedAt = 0, expiresAt = 600000\<rparr>] \<and>
   IsActive 1 (db (unlock_chapter [] 0 0 0 (Some empty_db)
     [(''userId'', JStr ''guest_1''), (''contentId'', JNum 42), (''chapterId'', JNum 3)]))
     ''guest_1'' ''42'' ''3'' = Unlocked False"
  by (simp add: unlock_chapter_def field_def Let_def respond_def lease_ms_def locks_of_def
      empty_db_def upsert_lock_def upsertOne_def set_times_def touch_user_def IsActive_iff
      lock_key_def parse_defs)

subsection \<open>One lease per triple\<close>

lemma filter_key_single:
  "distinct (map k xs) \<Longrightarrow> x \<in> set xs \<Longrightarrow> k x = v \<Longrightarrow> filter (\<lambda>y. k y = v) xs = [x]"
proof (induction xs)
  case Nil
  then show ?case by simp
next
  case (Cons a xs)
  show ?case
  proof (cases "a = x")
    case True
    have "filter (\<lambda>y. k y = v) xs = []"
      using Cons.prems True by (auto simp: filter_empty_conv image_iff)
    with True Cons.prems show ?thesis by simp
  next
    case False
    with Cons.prems have "x \<in> set xs" "k a \<noteq> v" by (auto simp: image_iff)
    with Cons show ?thesis by simp
  qed
qed

lemma upsert_lock_filter:
  assumes "one_per_triple ls"
  shows "filter (lock_key u c ch) (upsert_lock u c ch tu te ls) =
     [\<lparr>userId = bson u, contentId = bson c, chapterId = bson ch, unlockedAt = tu,
       expiresAt = te\<rparr>]"
proof -
  let ?ls = "upsert_lock u c ch tu te ls"
  obtain l where l: "l \<in> set ?ls" "lock_key u c ch l" "unlockedAt l = tu" "expiresAt l = te"
    using upsert_lock_has by blast
  then have eq: "l = \<lparr>userId = bson u, contentId = bson c, chapterId = bson ch, unlockedAt = tu,
       expiresAt = te\<rparr>"
    by (simp add: lock_key_def)
  have "one_per_triple ?ls"
    using assms by (rule one_per_triple_upsert)
  then have "filter (\<lambda>y. triple y = (bson u, bson c, bson ch)) ?ls = [l]"
    unfolding one_per_triple_def using l(1,2)
    by (intro filter_key_single) (simp_all add: lock_key_triple)
  then show ?thesis
    using eq by (simp add: lock_key_triple [abs_def])
qed

lemma one_per_triple_filter: "one_per_triple ls \<Longrightarrow> one_per_triple (filter P ls)"
  by (simp add: one_per_triple_def distinct_map_filter)

lemma locks_unlock_chapter:
  "locks_of (db (unlock_chapter fl ta tb tc d b)) =
     (if d \<noteq> None \<and> truthy (field b ''userId'') \<and> truthy (field b ''contentId'') \<and>
         truthy (field b ''chapterId'') \<and> LocksUpdateOne \<notin> set fl
      then upsert_lock (field b ''userId'') (parseInt (field b ''contentId''))
             (field b ''chapterId'') tb (ta + 600000) (locks_of d)
      else locks_of d)"
  by (cases d)
     (auto simp: unlock_chapter_def locks_of_def unavailable_def respond_def caught_def Let_def
       lease_ms_def)

lemma locks_ads_complete:
  "locks_of (db (ads_complete fl ta tb tc d b)) =
     (if d \<noteq> None \<and> truthy (field b ''userId'') \<and> truthy (field b ''manga'') \<and>
         truthy (field b ''chapterId'') \<and> LocksUpdateOne \<notin> set fl
      then upsert_lock (field b ''userId'') (field b ''manga'')
             (field b ''chapterId'') tb (ta + 600000) (locks_of d)
      else locks_of d)"
  by (cases d)
     (auto simp: ads_complete_def locks_of_def unavailable_def respond_def caught_def Let_def
       lease_ms_def)

lemma locks_timer_callback:
  "locks_of (fst (timer_callback fl ta tb d tm)) =
     (if d \<noteq> None \<and> LocksUpdateOne \<notin> set fl
      then upsert_lock (t_userId tm) (parseInt (t_contentId tm)) (t_chapterId tm) tb
             (ta + 600000) (locks_of d)
      else locks_of d)"
  by (cases d) (auto simp: timer_callback_def locks_of_def Let_def lease_ms_def)

lemma locks_check_unlock: "db (check_unlock fl now d uid cid chid) = d"
  by (cases d) (auto simp: check_unlock_def unavailable_def respond_def caught_def Let_def)

lemma locks_user_locks: "db (user_locks fl now d uid) = d"
  by (cases d) (auto simp: user_locks_def unavailable_def respond_def caught_def Let_def)

lemma locks_chapter_gate: "db (chapter_gate fl now d manga chid q) = d"
  by (cases d)
     (auto simp: chapter_gate_def unavailable_def respond_def caught_def Let_def
       split: option.splits)

lemma locks_refresh:
  "locks_of (db (refresh_chapter_locks fl d)) =
     (if LocksDeleteMany \<in> set fl then locks_of d else [])"
  by (cases d)
     (auto simp: refresh_chapter_locks_def locks_of_def unavailable_def respond_def caught_def
       deleteMany_def)

lemma locks_sweeper:
  "locks_of (fst (sweeper fl now d)) =
     (if LocksDeleteMany \<in> set fl then locks_of d
      else filter (\<lambda>l. \<not> expiresAt l < now) (locks_of d))"
  by (cases d) (auto simp: sweeper_def locks_of_def deleteMany_def)

lemma locks_ttl_monitor:
  "locks_of (ttl_monitor now d) = filter (\<lambda>l. \<not> expiresAt l \<le> now) (locks_of d)"
  by (cases d) (auto simp: ttl_monitor_def locks_of_def deleteMany_def)

lemma step_one_per_triple:
  "one_per_triple (locks_of (store s)) \<Longrightarrow> one_per_triple (locks_of (store (step e s)))"
proof (cases e)
  case (TimerFires fl ta tb)
  assume "one_per_triple (locks_of (store s))"
  then show ?thesis
    by (simp add: TimerFires timer_fires_def locks_timer_callback one_per_triple_upsert
        split: option.splits)
qed (simp_all add: locks_unlock_chapter locks_ads_complete locks_check_unlock locks_user_locks
      locks_chapter_gate locks_refresh locks_sweeper locks_ttl_monitor one_per_triple_upsert
      one_per_triple_filter one_per_triple_def [of "[]"])

lemma run_one_per_triple:
  "one_per_triple (locks_of (store s)) \<Longrightarrow> one_per_triple (locks_of (store (run es s)))"
  by (induction es arbitrary: s) (simp_all add: step_one_per_triple)


lemma bson_truthy: "truthy v \<Longrightarrow> bson v = v"
  by (cases v) simp_all

lemma bson_to_number: "bson (to_number sign m) = to_number sign m"
  by (simp add: to_number_def Let_def)

lemma bson_parse_int_str: "bson (parse_int_str s) = parse_int_str s"
  by (simp add: parse_int_str_def bson_to_number Let_def split: prod.splits option.splits)

lemma bson_parse_int_num: "bson (parse_int_num n) = parse_int_num n"
  by (simp add: parse_int_num_def Let_def)

lemma bson_parseInt: "bson (parseInt v) = parseInt v"
  by (cases v) (simp_all add: bson_parse_int_str bson_parse_int_num)

text \<open>
  Claim C2. Starting from a collection with at most one lease per triple (the empty
  collection is one), every sequence of requests, timer firings, sweeps and TTL passes
  leaves at most one lease per triple. While the store is connected and the lease
  upsert does not reject, two grants for the same triple through the unlock endpoint,
  through ad completion or through the timer's callback leave exactly one lease for it,
  whose \<^verbatim>\<open>expiresAt\<close> is the second grant's clock reading plus 600000 ms. Store calls
  are taken one at a time.
\<close>

theorem one_lease_per_triple:
  assumes inv: "one_per_triple (locks_of (store s))"
  shows "one_per_triple (locks_of (store (run es s))) \<and>
    (store (run es s) \<noteq> None \<and> LocksUpdateOne \<notin> set fl \<and> LocksUpdateOne \<notin> set fl' \<longrightarrow>
       (truthy (field b ''userId'') \<and> truthy (field b ''contentId'') \<and>
        truthy (field b ''chapterId'') \<longrightarrow>
          filter (lock_key (field b ''userId'') (parseInt (field b ''contentId''))
                    (field b ''chapterId''))
            (locks_of (db (unlock_chapter fl' ta' tb' tc'
               (db (unlock_chapter fl ta tb tc (store (run es s)) b)) b))) =
          [\<lparr>userId = field b ''userId'', contentId = parseInt (field b ''contentId''),
            chapterId = field b ''chapterId'', unlockedAt = tb', expiresAt = ta' + 600000\<rparr>]) \<and>
       (truthy (field b ''userId'') \<and> truthy (field b ''manga'') \<and>
        truthy (field b ''chapterId'') \<longrightarrow>
          filter (lock_key (field b ''userId'') (field b ''manga'') (field b ''chapterId''))
            (locks_of (db (ads_complete fl' ta' tb' tc'
               (db (ads_complete fl ta tb tc (store (run es s)) b)) b))) =
          [\<lparr>userId = field b ''userId'', contentId = field b ''manga'',
            chapterId = field b ''chapterId'', unlockedAt = tb', expiresAt = ta' + 600000\<rparr>]) \<and>
       filter (lock_key (t_userId tm) (parseInt (t_contentId tm)) (t_chapterId tm))
         (locks_of (fst (timer_callback fl' ta' tb'
            (fst (timer_callback fl ta tb (store (run es s)) tm)) tm))) =
       [\<lparr>userId = bson (t_userId tm), contentId = parseInt (t_contentId tm),
         chapterId = bson (t_chapterId tm), unlockedAt = tb', expiresAt = ta' + 600000\<rparr>])"
proof -
  let ?d = "store (run es s)"
  have i: "one_per_triple (locks_of ?d)"
    using inv by (rule run_one_per_triple)
  have twice: "\<And>u c ch tu te tu' te'.
      filter (lock_key u c ch) (upsert_lock u c ch tu' te' (upsert_lock u c ch tu te (locks_of ?d))) =
      [\<lparr>userId = bson u, contentId = bson c, chapterId = bson ch, unlockedAt = tu',
        expiresAt = te'\<rparr>]"
    using i by (intro upsert_lock_filter one_per_triple_upsert)
  have conn: "\<And>fl ta tb tc b. ?d \<noteq> None \<Longrightarrow> db (unlock_chapter fl ta tb tc ?d b) \<noteq> None"
    by (auto simp: unlock_chapter_def unavailable_def respond_def caught_def Let_def)
  have conn_ads: "\<And>fl ta tb tc b. ?d \<noteq> None \<Longrightarrow> db (ads_complete fl ta tb tc ?d b) \<noteq> None"
    by (auto simp: ads_complete_def unavailable_def respond_def caught_def Let_def)
  have conn_timer: "\<And>fl ta tb tm. ?d \<noteq> None \<Longrightarrow> fst (timer_callback fl ta tb ?d tm) \<noteq> None"
    by (auto simp: timer_callback_def Let_def)
  show ?thesis
    using i
    by (simp add: locks_unlock_chapter locks_ads_complete locks_timer_callback conn conn_ads
        conn_timer twice bson_truthy bson_parseInt)
qed

text \<open>
  Two grants at 0 and at 100000 ms: the one lease expires at 700000 ms.
\<close>

theorem one_lease_per_triple_witness:
  "filter (lock_key (JStr ''guest_1'') (JNum 42) (JStr ''3''))
     (locks_of (db (unlock_chapter [] 100000 100000 100000
        (db (unlock_chapter [] 0 0 0 (Some empty_db)
           [(''userId'', JStr ''guest_1''), (''manga'', JStr ''one-piece''),
            (''chapterId'', JStr ''3''), (''contentId'', JNum 42)]))
        [(''userId'', JStr ''guest_1''), (''manga'', JStr ''one-piece''),
         (''chapterId'', JStr ''3''), (''contentId'', JNum 42)]))) =
   [\<lparr>userId = JStr ''guest_1'', contentId = JNum 42, chapterId = JStr ''3'',
     unlockedAt = 100000, expiresAt = 700000\<rparr>] \<and>
   filter (lock_key (JStr ''guest_1'') (JStr ''one-piece'') (JStr ''3''))
     (locks_of (db (ads_complete [] 100000 100000 100000
        (db (ads_complete [] 0 0 0 (Some empty_db)
           [(''userId'', JStr ''guest_1''), (''manga'', JStr ''one-piece''),
            (''chapterId'', JStr ''3''), (''contentId'', JNum 42)]))
        [(''userId'', JStr ''guest_1''), (''manga'', JStr ''one-piece''),
         (''chapterId'', JStr ''3''), (''contentId'', JNum 42)]))) =
   [\<lparr>userId = JStr ''guest_1'', contentId = JStr ''one-piece'', chapterId = JStr ''3'',
     unlockedAt = 100000, expiresAt = 700000\<rparr>] \<and>
   filter (lock_key (JStr ''guest_1'') (JNum 42) (JStr ''3''))
     (locks_of (fst (timer_callback [] 100000 100000
        (fst (timer_callback [] 0 0 (Some empty_db)
           \<lparr>due = 0, t_userId = JStr ''guest_1'', t_contentId = JNum 42,
             t_chapterId = JStr ''3''\<rparr>))
        \<lparr>due = 0, t_userId = JStr ''guest_1'', t_contentId = JNum 42,
          t_chapterId = JStr ''3''\<rparr>))) =
   [\<lparr>userId = JStr ''guest_1'', contentId = JNum 42, chapterId = JStr ''3'',
     unlockedAt = 100000, expiresAt = 700000\<rparr>]"
proof -
  have i: "one_per_triple (locks_of (store \<lparr>store = Some empty_db, pending = []\<rparr>))"
    by (simp add: one_per_triple_def locks_of_def empty_db_def)
  show ?thesis
    using one_lease_per_triple [OF i, where es = "[]" and fl = "[]" and fl' = "[]"
        and ta = 0 and tb = 0 and tc = 0 and ta' = 100000 and tb' = 100000 and tc' = 100000
        and b = "[(''userId'', JStr ''guest_1''), (''manga'', JStr ''one-piece''),
                  (''chapterId'', JStr ''3''), (''contentId'', JNum 42)]"
        and tm = "\<lparr>due = 0, t_userId = JStr ''guest_1'', t_contentId = JNum 42,
                    t_chapterId = JStr ''3''\<rparr>"]
    by (simp add: field_def parse_int_num_small)
qed

subsection \<open>The gated read\<close>




lemma findOne_None_iff: "(findOne P xs = None) = (\<not> (\<exists>x\<in>set xs. P x))"
  by (auto simp: findOne_def find_None_iff)

lemma chapter_gate_cases:
  "chapter_gate fl now (Some dbs) manga chid user_q =
     (if LocksFindOne \<in> set fl
      then caught (Some dbs) ''Error fetching chapter:'' ''Internal server error''
      else if \<not> (\<exists>l\<in>set (chapter_locks dbs).
                   active_lock (if truthy user_q then user_q else JStr ''guest'')
                     (JStr manga) (JStr chid) now l)
      then respond (Some dbs) 402 (Error ''Chapter locked. Please watch an ad to unlock.'')
      else if ChaptersFindOne \<in> set fl
      then caught (Some dbs) ''Error fetching chapter:'' ''Internal server error''
      else case findOne (\<lambda>c. c_normalizedTitle c = JStr manga \<and> c_chapterId c = JStr chid)
                  (chapters dbs) of
             Some c \<Rightarrow> respond (Some dbs) 200 (chapter_payload c)
           | None \<Rightarrow> respond (Some dbs) 404 (Error ''Chapter not found''))"
proof (cases "findOne (active_lock (if truthy user_q then user_q else JStr ''guest'')
                (JStr manga) (JStr chid) now) (chapter_locks dbs)")
  case None
  then show ?thesis
    using findOne_None_iff [of "active_lock (if truthy user_q then user_q else JStr ''guest'')
                (JStr manga) (JStr chid) now" "chapter_locks dbs"]
    by (simp add: chapter_gate_def Let_def)
next
  case (Some a)
  then show ?thesis
    using findOne_None_iff [of "active_lock (if truthy user_q then user_q else JStr ''guest'')
                (JStr manga) (JStr chid) now" "chapter_locks dbs"]
    by (simp add: chapter_gate_def Let_def)
qed













text \<open>
  Claim C4. With the store connected and its reads succeeding, the gate of
  \<^verbatim>\<open>GET /chapter/:manga/:chapterId\<close> treats an absent \<^verbatim>\<open>user\<close> as \<^verbatim>\<open>"guest"\<close>; with no
  active lease for \<open>(userId, manga, chapterId)\<close> it answers 402 and an error body,
  whatever the chapters are; with an active lease it answers 200 and the payload of the
  first chapter of that title and id when there is one (its title, its pages or the
  empty list, its content or null), and 404 when there is none.
\<close>

theorem access_gate:
  assumes ok: "LocksFindOne \<notin> set fl" "ChaptersFindOne \<notin> set fl"
  shows "chapter_gate fl now (Some dbs) manga chid JUndefined =
           chapter_gate fl now (Some dbs) manga chid (JStr ''guest'') \<and>
     (\<not> (\<exists>l\<in>set (chapter_locks dbs).
           active_lock (if truthy user_q then user_q else JStr ''guest'') (JStr manga) (JStr chid)
             now l) \<longrightarrow>
        chapter_gate fl now (Some dbs) manga chid user_q =
          \<lparr>db = Some dbs, status = 402,
           reply = Error ''Chapter locked. Please watch an ad to unlock.'', logged = []\<rparr>) \<and>
     ((\<exists>l\<in>set (chapter_locks dbs).
           active_lock (if truthy user_q then user_q else JStr ''guest'') (JStr manga) (JStr chid)
             now l) \<and>
      (\<exists>c\<in>set (chapters dbs). c_normalizedTitle c = JStr manga \<and> c_chapterId c = JStr chid) \<longrightarrow>
        (\<exists>c. List.find (\<lambda>c. c_normalizedTitle c = JStr manga \<and> c_chapterId c = JStr chid)
                (chapters dbs) = Some c \<and>
           chapter_gate fl now (Some dbs) manga chid user_q =
             \<lparr>db = Some dbs, status = 200,
              reply = ChapterPayload (c_title c)
                        (case c_pages c of None \<Rightarrow> [] | Some ps \<Rightarrow> ps)
                        (if truthy (c_content c) then c_content c else JNull),
              logged = []\<rparr>)) \<and>
     ((\<exists>l\<in>set (chapter_locks dbs).
           active_lock (if truthy user_q then user_q else JStr ''guest'') (JStr manga) (JStr chid)
             now l) \<and>
      \<not> (\<exists>c\<in>set (chapters dbs). c_normalizedTitle c = JStr manga \<and> c_chapterId c = JStr chid) \<longrightarrow>
        chapter_gate fl now (Some dbs) manga chid user_q =
          \<lparr>db = Some dbs, status = 404, reply = Error ''Chapter not found'', logged = []\<rparr>)"
proof -
  let ?P = "\<lambda>c. c_normalizedTitle c = JStr manga \<and> c_chapterId c = JStr chid"
  have none: "(findOne ?P (chapters dbs) = None) = (\<not> (\<exists>c\<in>set (chapters dbs). ?P c))"
    by (rule findOne_None_iff)
  have guest: "chapter_gate fl now (Some dbs) manga chid JUndefined =
           chapter_gate fl now (Some dbs) manga chid (JStr ''guest'')"
    by (simp add: chapter_gate_def)
  show ?thesis
  proof (cases "findOne ?P (chapters dbs)")
    case None
    with none guest ok show ?thesis
      by (auto simp add: chapter_gate_cases respond_def)
  next
    case (Some c)
    then have "List.find ?P (chapters dbs) = Some c"
      by (simp add: findOne_def)
    with Some none guest ok show ?thesis
      by (auto simp add: chapter_gate_cases respond_def chapter_payload_def)
  qed
qed

text \<open>
  A guest holding a lease reads an existing chapter and gets its title, pages and
  content (200), or the defaults for a chapter with neither pages nor content; the guest
  is refused once the lease has expired (402), and is told when the chapter does not
  exist (404).
\<close>

theorem access_gate_witness:
  "chapter_gate [] 1
     (Some (empty_db\<lparr>
        chapter_locks := [\<lparr>userId = JStr ''guest'', contentId = JStr ''one-piece'',
                           chapterId = JStr ''1'', unlockedAt = 0, expiresAt = 600000\<rparr>],
        chapters := [\<lparr>c_contentId = JNum 7, c_chapterId = JStr ''1'',
                      c_normalizedTitle = JStr ''one-piece'', c_title = JStr ''Romance Dawn'',
                      c_pages = Some [JStr ''/api/image/a1'', JStr ''/api/image/a2''],
                      c_content = JStr ''Wealth, fame, power.''\<rparr>]\<rparr>))
     ''one-piece'' ''1'' JUndefined =
   \<lparr>db = Some (empty_db\<lparr>
        chapter_locks := [\<lparr>userId = JStr ''guest'', contentId = JStr ''one-piece'',
                           chapterId = JStr ''1'', unlockedAt = 0, expiresAt = 600000\<rparr>],
        chapters := [\<lparr>c_contentId = JNum 7, c_chapterId = JStr ''1'',
                      c_normalizedTitle = JStr ''one-piece'', c_title = JStr ''Romance Dawn'',
                      c_pages = Some [JStr ''/api/image/a1'', JStr ''/api/image/a2''],
                      c_content = JStr ''Wealth, fame, power.''\<rparr>]\<rparr>),
    status = 200,
    reply = ChapterPayload (JStr ''Romance Dawn'') [JStr ''/api/image/a1'', JStr ''/api/image/a2'']
              (JStr ''Wealth, fame, power.''),
    logged = []\<rparr> \<and>
   reply (chapter_gate [] 1
     (Some (empty_db\<lparr>
        chapter_locks := [\<lparr>userId = JStr ''guest'', contentId = JStr ''one-piece'',
                           chapterId = JStr ''1'', unlockedAt = 0, expiresAt = 600000\<rparr>],
        chapters := [\<lparr>c_contentId = JNum 7, c_chapterId = JStr ''1'',
                      c_normalizedTitle = JStr ''one-piece'', c_title = JStr ''Romance Dawn'',
                      c_pages = None, c_content = JUndefined\<rparr>]\<rparr>))
     ''one-piece'' ''1'' JUndefined) = ChapterPayload (JStr ''Romance Dawn'') [] JNull \<and>
   status (chapter_gate [] 600000
     (Some (empty_db\<lparr>
        chapter_locks := [\<lparr>userId = JStr ''guest'', contentId = JStr ''one-piece'',
                           chapterId = JStr ''1'', unlockedAt = 0, expiresAt = 600000\<rparr>],
        chapters := [\<lparr>c_contentId = JNum 7, c_chapterId = JStr ''1'',
                      c_normalizedTitle = JStr ''one-piece'', c_title = JStr ''Romance Dawn'',
                      c_pages = Some [JStr ''/api/image/a1'', JStr ''/api/image/a2''],
                      c_content = JStr ''Wealth, fame, power.''\<rparr>]\<rparr>))
     ''one-piece'' ''1'' JUndefined) = 402 \<and>
   status (chapter_gate [] 1
     (Some (empty_db\<lparr>
        chapter_locks := [\<lparr>userId = JStr ''guest'', contentId = JStr ''one-piece'',
                           chapterId = JStr ''1'', unlockedAt = 0, expiresAt = 600000\<rparr>]\<rparr>))
     ''one-piece'' ''1'' JUndefined) = 404"
proof -
  let ?lock = "\<lparr>userId = JStr ''guest'', contentId = JStr ''one-piece'',
                 chapterId = JStr ''1'', unlockedAt = 0, expiresAt = 600000\<rparr>"
  let ?chap = "\<lparr>c_contentId = JNum 7, c_chapterId = JStr ''1'',
                 c_normalizedTitle = JStr ''one-piece'', c_title = JStr ''Romance Dawn'',
                 c_pages = Some [JStr ''/api/image/a1'', JStr ''/api/image/a2''],
                 c_content = JStr ''Wealth, fame, power.''\<rparr>"
  let ?bare = "\<lparr>c_contentId = JNum 7, c_chapterId = JStr ''1'',
                 c_normalizedTitle = JStr ''one-piece'', c_title = JStr ''Romance Dawn'',
                 c_pages = None, c_content = JUndefined\<rparr>"
  have ok: "LocksFindOne \<notin> set []" "ChaptersFindOne \<notin> set []" by simp_all
  note g = access_gate [OF ok, where manga = "''one-piece''" and chid = "''1''"
        and user_q = JUndefined]
  have a: "chapter_gate [] 1 (Some (empty_db\<lparr>chapter_locks := [?lock], chapters := [?chap]\<rparr>))
             ''one-piece'' ''1'' JUndefined =
           \<lparr>db = Some (empty_db\<lparr>chapter_locks := [?lock], chapters := [?chap]\<rparr>), status = 200,
            reply = ChapterPayload (JStr ''Romance Dawn'')
                      [JStr ''/api/image/a1'', JStr ''/api/image/a2'']
                      (JStr ''Wealth, fame, power.''),
            logged = []\<rparr>"
    using g [where now = 1 and dbs = "empty_db\<lparr>chapter_locks := [?lock], chapters := [?chap]\<rparr>",
        THEN conjunct2, THEN conjunct2, THEN conjunct1]
    by (simp add: active_lock_def lock_key_def)
  have a': "reply (chapter_gate [] 1
             (Some (empty_db\<lparr>chapter_locks := [?lock], chapters := [?bare]\<rparr>))
             ''one-piece'' ''1'' JUndefined) = ChapterPayload (JStr ''Romance Dawn'') [] JNull"
    using g [where now = 1 and dbs = "empty_db\<lparr>chapter_locks := [?lock], chapters := [?bare]\<rparr>",
        THEN conjunct2, THEN conjunct2, THEN conjunct1]
    by (simp add: active_lock_def lock_key_def)
  have b: "status (chapter_gate [] 600000
             (Some (empty_db\<lparr>chapter_locks := [?lock], chapters := [?chap]\<rparr>))
             ''one-piece'' ''1'' JUndefined) = 402"
    using g [where now = 600000
        and dbs = "empty_db\<lparr>chapter_locks := [?lock], chapters := [?chap]\<rparr>",
        THEN conjunct2, THEN conjunct1]
    by (simp add: active_lock_def lock_key_def)
  have c: "status (chapter_gate [] 1 (Some (empty_db\<lparr>chapter_locks := [?lock]\<rparr>))
             ''one-piece'' ''1'' JUndefined) = 404"
    using g [where now = 1 and dbs = "empty_db\<lparr>chapter_locks := [?lock]\<rparr>",
        THEN conjunct2, THEN conjunct2, THEN conjunct2]
    by (simp add: active_lock_def lock_key_def empty_db_def)
  from a a' b c show ?thesis by simp
qed

subsection \<open>The last-seen update\<close>

text \<open>
  Claim C5 as stated fails: when the update of \<^verbatim>\<open>last_seen\<close> rejects, the grant handlers
  answer 500. The \<^verbatim>\<open>await\<close> of that update sits in the same \<^verbatim>\<open>try\<close> block as the rest of
  the handler, whose \<^verbatim>\<open>catch\<close> sends the failure response.
\<close>

theorem last_seen_failure_reported:
  "status (unlock_chapter [UsersUpdateOne] 0 0 0 (Some empty_db)
     [(''userId'', JStr ''guest_1''), (''contentId'', JNum 42), (''chapterId'', JStr ''3'')]) = 500 \<and>
   reply (unlock_chapter [UsersUpdateOne] 0 0 0 (Some empty_db)
     [(''userId'', JStr ''guest_1''), (''contentId'', JNum 42), (''chapterId'', JStr ''3'')]) =
     Error ''Failed to unlock chapter'' \<and>
   status (ads_complete [UsersUpdateOne] 0 0 0 (Some empty_db)
     [(''userId'', JStr ''guest_1''), (''manga'', JStr ''one-piece''), (''chapterId'', JStr ''3'')]) =
     500"
  by (simp add: unlock_chapter_def ads_complete_def field_def caught_def Let_def)

text \<open>
  Claim C5, as the code has it. For \<^verbatim>\<open>POST /api/unlock-chapter\<close> and
  \<^verbatim>\<open>POST /ads-complete\<close> with the identifiers present and the lease upsert succeeding, a
  failure of the \<^verbatim>\<open>last_seen\<close> update does not undo the upsert: the lease is in the
  collection afterwards. The failure is logged, and the handler answers 500 with an
  error body.
\<close>

theorem last_seen_failure:
  assumes "truthy (field b ''userId'')" "truthy (field b ''chapterId'')"
    and "LocksUpdateOne \<notin> set fl" "UsersUpdateOne \<in> set fl"
  shows "(truthy (field b ''contentId'') \<longrightarrow>
      unlock_chapter fl ta tb tc (Some dbs) b =
        \<lparr>db = Some (dbs\<lparr>chapter_locks :=
                 upsert_lock (field b ''userId'') (parseInt (field b ''contentId''))
                   (field b ''chapterId'') tb (ta + 600000) (chapter_locks dbs)\<rparr>),
         status = 500, reply = Error ''Failed to unlock chapter'',
         logged = [ConsoleError ''Error unlocking chapter:'']\<rparr>) \<and>
    (truthy (field b ''manga'') \<longrightarrow>
      ads_complete fl ta tb tc (Some dbs) b =
        \<lparr>db = Some (dbs\<lparr>chapter_locks :=
                 upsert_lock (field b ''userId'') (field b ''manga'')
                   (field b ''chapterId'') tb (ta + 600000) (chapter_locks dbs)\<rparr>),
         status = 500, reply = Error ''Internal server error'',
         logged = [ConsoleError ''Error in ad completion:'']\<rparr>)"
  using assms
  by (simp add: unlock_chapter_def ads_complete_def caught_def Let_def lease_ms_def)

text \<open>
  With the \<^verbatim>\<open>last_seen\<close> update failing, the lease is granted and the answer is 500.
\<close>

theorem last_seen_failure_witness:
  "IsActive 1 (db (unlock_chapter [UsersUpdateOne] 0 0 0 (Some empty_db)
       [(''userId'', JStr ''guest_1''), (''contentId'', JNum 42), (''chapterId'', JStr ''3''),
        (''manga'', JStr ''one-piece'')])) ''guest_1'' ''42'' ''3'' = Unlocked True \<and>
   status (unlock_chapter [UsersUpdateOne] 0 0 0 (Some empty_db)
       [(''userId'', JStr ''guest_1''), (''contentId'', JNum 42), (''chapterId'', JStr ''3''),
        (''manga'', JStr ''one-piece'')]) = 500 \<and>
   chapter_locks (the (db (ads_complete [UsersUpdateOne] 0 0 0 (Some empty_db)
       [(''userId'', JStr ''guest_1''), (''contentId'', JNum 42), (''chapterId'', JStr ''3''),
        (''manga'', JStr ''one-piece'')]))) =
     [\<lparr>userId = JStr ''guest_1'', contentId = JStr ''one-piece'', chapterId = JStr ''3'',
       unlockedAt = 0, expiresAt = 600000\<rparr>]"
  using last_seen_failure [where fl = "[UsersUpdateOne]" and ta = 0 and tb = 0 and tc = 0
      and dbs = empty_db
      and b = "[(''userId'', JStr ''guest_1''), (''contentId'', JNum 42),
                (''chapterId'', JStr ''3''), (''manga'', JStr ''one-piece'')]"]
  by (simp add: field_def IsActive_iff empty_db_def upsert_lock_def upsertOne_def set_times_def
      lock_key_def parse_defs)

subsection \<open>Missing identifiers\<close>

lemma unlock_chapter_missing:
  "\<not> truthy (field b ''userId'') \<or> \<not> truthy (field b ''contentId'') \<or>
   \<not> truthy (field b ''chapterId'') \<Longrightarrow>
   unlock_chapter fl ta tb tc (Some dbs) b =
     respond (Some dbs) 400 (Error ''Missing required fields'')"
  by (auto simp: unlock_chapter_def Let_def)

lemma ads_complete_missing:
  "\<not> truthy (field b ''userId'') \<or> \<not> truthy (field b ''manga'') \<or>
   \<not> truthy (field b ''chapterId'') \<Longrightarrow>
   ads_complete fl ta tb tc (Some dbs) b =
     respond (Some dbs) 400 (Error ''Missing required fields'')"
  by (auto simp: ads_complete_def Let_def)

text \<open>
  Claim C6 at an empty body. The unlock endpoint and ad completion answer 400 and write
  nothing; \<^verbatim>\<open>POST /api/start-chapter-timer\<close> has no such check, answers 200, and its timer
  then upserts a lease whose \<^verbatim>\<open>userId\<close> and \<^verbatim>\<open>chapterId\<close> are null and whose \<^verbatim>\<open>contentId\<close>
  is \<^verbatim>\<open>NaN\<close>.
\<close>

theorem timer_accepts_missing_fields:
  "fst (start_chapter_timer 0 (Some empty_db) [] []) =
     respond (Some empty_db) 200 (TimerStarted 40000) \<and>
   unlock_chapter [] 0 0 0 (Some empty_db) [] =
     respond (Some empty_db) 400 (Error ''Missing required fields'') \<and>
   ads_complete [] 0 0 0 (Some empty_db) [] =
     respond (Some empty_db) 400 (Error ''Missing required fields'') \<and>
   locks_of (store (run [StartChapterTimer 0 [], TimerFires [] 40000 40000]
      \<lparr>store = Some empty_db, pending = []\<rparr>)) =
     [\<lparr>userId = JNull, contentId = JNaN, chapterId = JNull, unlockedAt = 40000,
       expiresAt = 640000\<rparr>]"
  by (simp add: start_chapter_timer_def unlock_chapter_def ads_complete_def field_def Let_def
      timer_fires_def timer_callback_def timer_ms_def lease_ms_def locks_of_def empty_db_def
      upsert_lock_def upsertOne_def set_times_def)

text \<open>
  The statuses of the three handlers on the empty body, and the triple of the lease the
  timer leaves.
\<close>

theorem timer_accepts_missing_fields_witness:
  "status (fst (start_chapter_timer 0 (Some empty_db) [] [])) = 200 \<and>
   status (unlock_chapter [] 0 0 0 (Some empty_db) []) = 400 \<and>
   status (ads_complete [] 0 0 0 (Some empty_db) []) = 400 \<and>
   map triple (locks_of (store (run [StartChapterTimer 0 [], TimerFires [] 40000 40000]
      \<lparr>store = Some empty_db, pending = []\<rparr>))) = [(JNull, JNaN, JNull)]"
  using timer_accepts_missing_fields by (simp add: respond_def triple_def)

subsection \<open>The sweeper and the administrative reset\<close>

text \<open>
  Claim C7 as stated fails in one respect: the count is logged under the guard
  \<^verbatim>\<open>if (result.deletedCount > 0)\<close>, so a run that removes nothing reports nothing.
\<close>

theorem sweep_reports_nothing:
  "sweeper [] 1000 (Some (empty_db\<lparr>chapter_locks :=
      [\<lparr>userId = JStr ''guest_1'', contentId = JNum 42, chapterId = JStr ''3'',
        unlockedAt = 0, expiresAt = 600000\<rparr>]\<rparr>)) =
   (Some (empty_db\<lparr>chapter_locks :=
      [\<lparr>userId = JStr ''guest_1'', contentId = JNum 42, chapterId = JStr ''3'',
        unlockedAt = 0, expiresAt = 600000\<rparr>]\<rparr>), [])"
  by (simp add: sweeper_def deleteMany_def empty_db_def)

text \<open>
  Claim C7, as the code has it. A run of the sweeper at clock reading \<open>now\<close> whose
  \<^verbatim>\<open>deleteMany\<close> succeeds leaves exactly the leases whose \<^verbatim>\<open>expiresAt\<close> is not before
  \<open>now\<close>, and logs the number removed when that number is positive. No run removes a
  lease whose \<^verbatim>\<open>expiresAt\<close> is at or after \<open>now\<close>, and no run changes what the check
  endpoint answers at \<open>now\<close> or later. A run whose \<^verbatim>\<open>deleteMany\<close> rejects leaves the
  database as it was and logs the error; nothing propagates.
\<close>

theorem sweeper_run:
  "(LocksDeleteMany \<notin> set fl \<longrightarrow>
      sweeper fl now (Some dbs) =
        (Some (dbs\<lparr>chapter_locks := filter (\<lambda>l. \<not> expiresAt l < now) (chapter_locks dbs)\<rparr>),
         if 0 < length (filter (\<lambda>l. expiresAt l < now) (chapter_locks dbs))
         then [AutoCleaned (length (filter (\<lambda>l. expiresAt l < now) (chapter_locks dbs)))]
         else [])) \<and>
   (\<forall>l\<in>set (chapter_locks dbs).
      now \<le> expiresAt l \<longrightarrow> l \<in> set (locks_of (fst (sweeper fl now (Some dbs))))) \<and>
   (\<forall>t uid cid chid.
      now \<le> t \<longrightarrow>
      IsActive t (fst (sweeper fl now (Some dbs))) uid cid chid = IsActive t (Some dbs) uid cid chid) \<and>
   (LocksDeleteMany \<in> set fl \<longrightarrow>
      sweeper fl now (Some dbs) =
        (Some dbs, [ConsoleError ''Error auto-cleaning chapter locks:'']))"
proof -
  have run: "LocksDeleteMany \<notin> set fl \<Longrightarrow>
      sweeper fl now (Some dbs) =
        (Some (dbs\<lparr>chapter_locks := filter (\<lambda>l. \<not> expiresAt l < now) (chapter_locks dbs)\<rparr>),
         if 0 < length (filter (\<lambda>l. expiresAt l < now) (chapter_locks dbs))
         then [AutoCleaned (length (filter (\<lambda>l. expiresAt l < now) (chapter_locks dbs)))]
         else [])"
    by (simp add: sweeper_def deleteMany_def)
  have failed: "LocksDeleteMany \<in> set fl \<Longrightarrow>
      sweeper fl now (Some dbs) =
        (Some dbs, [ConsoleError ''Error auto-cleaning chapter locks:''])"
    by (simp add: sweeper_def)
  have locks: "locks_of (fst (sweeper fl now (Some dbs))) =
      (if LocksDeleteMany \<in> set fl then chapter_locks dbs
       else filter (\<lambda>l. \<not> expiresAt l < now) (chapter_locks dbs))"
    unfolding locks_sweeper by (simp add: locks_of_def)
  have kept: "\<forall>l\<in>set (chapter_locks dbs).
      now \<le> expiresAt l \<longrightarrow> l \<in> set (locks_of (fst (sweeper fl now (Some dbs))))"
    by (auto simp: locks)
  obtain y where y: "fst (sweeper fl now (Some dbs)) = Some y"
      "chapter_locks y =
         (if LocksDeleteMany \<in> set fl then chapter_locks dbs
          else filter (\<lambda>l. \<not> expiresAt l < now) (chapter_locks dbs))"
    by (cases "LocksDeleteMany \<in> set fl") (simp_all add: run failed)
  have "\<And>t uid cid chid. now \<le> t \<Longrightarrow>
      IsActive t (fst (sweeper fl now (Some dbs))) uid cid chid = IsActive t (Some dbs) uid cid chid"
    unfolding y(1) IsActive_iff y(2) by auto
  with run failed kept show ?thesis by blast
qed

text \<open>
  At 600001 ms the lease that expired at 600000 is removed and counted, the lease
  expiring at 600001 stays; a failing run only logs.
\<close>

theorem sweeper_run_witness:
  "sweeper [] 600001 (Some (empty_db\<lparr>chapter_locks :=
      [\<lparr>userId = JStr ''guest_1'', contentId = JNum 42, chapterId = JStr ''3'',
        unlockedAt = 0, expiresAt = 600000\<rparr>,
       \<lparr>userId = JStr ''guest_2'', contentId = JNum 42, chapterId = JStr ''3'',
        unlockedAt = 1, expiresAt = 600001\<rparr>]\<rparr>)) =
   (Some (empty_db\<lparr>chapter_locks :=
      [\<lparr>userId = JStr ''guest_2'', contentId = JNum 42, chapterId = JStr ''3'',
        unlockedAt = 1, expiresAt = 600001\<rparr>]\<rparr>), [AutoCleaned 1]) \<and>
   sweeper [LocksDeleteMany] 600001 (Some empty_db) =
     (Some empty_db, [ConsoleError ''Error auto-cleaning chapter locks:''])"
proof -
  let ?a = "\<lparr>userId = JStr ''guest_1'', contentId = JNum 42, chapterId = JStr ''3'',
              unlockedAt = 0, expiresAt = 600000\<rparr>"
  let ?b = "\<lparr>userId = JStr ''guest_2'', contentId = JNum 42, chapterId = JStr ''3'',
              unlockedAt = 1, expiresAt = 600001\<rparr>"
  have "sweeper [] 600001 (Some (empty_db\<lparr>chapter_locks := [?a, ?b]\<rparr>)) =
          (Some (empty_db\<lparr>chapter_locks := [?b]\<rparr>), [AutoCleaned 1])"
    using sweeper_run [where fl = "[]" and now = 600001
        and dbs = "empty_db\<lparr>chapter_locks := [?a, ?b]\<rparr>", THEN conjunct1]
    by simp
  moreover have "sweeper [LocksDeleteMany] 600001 (Some empty_db) =
      (Some empty_db, [ConsoleError ''Error auto-cleaning chapter locks:''])"
    using sweeper_run [where fl = "[LocksDeleteMany]" and now = 600001 and dbs = empty_db,
        THEN conjunct2, THEN conjunct2, THEN conjunct2]
    by simp
  ultimately show ?thesis by simp
qed

text \<open>
  Claim C8. \<^verbatim>\<open>POST /api/refresh-chapter-locks\<close> whose \<^verbatim>\<open>deleteMany\<close> succeeds empties the
  collection, expired leases or not, answers 200 with the number of leases there were,
  and afterwards the check endpoint answers false for every triple at every time.
\<close>

theorem revoke_all:
  assumes "LocksDeleteMany \<notin> set fl"
  shows "refresh_chapter_locks fl (Some dbs) =
       respond (Some (dbs\<lparr>chapter_locks := []\<rparr>)) 200 (LocksRefreshed (length (chapter_locks dbs))) \<and>
     (\<forall>now uid cid chid.
        IsActive now (db (refresh_chapter_locks fl (Some dbs))) uid cid chid = Unlocked False)"
proof -
  have r: "refresh_chapter_locks fl (Some dbs) =
       respond (Some (dbs\<lparr>chapter_locks := []\<rparr>)) 200 (LocksRefreshed (length (chapter_locks dbs)))"
    using assms by (simp add: refresh_chapter_locks_def deleteMany_def)
  then show ?thesis
    by (simp add: respond_def IsActive_iff)
qed

text \<open>
  An expired and an active lease are both removed; the count is 2.
\<close>

theorem revoke_all_witness:
  "reply (refresh_chapter_locks [] (Some (empty_db\<lparr>chapter_locks :=
      [\<lparr>userId = JStr ''guest_1'', contentId = JNum 42, chapterId = JStr ''3'',
        unlockedAt = 0, expiresAt = 600000\<rparr>,
       \<lparr>userId = JStr ''guest_2'', contentId = JNum 42, chapterId = JStr ''3'',
        unlockedAt = 500000, expiresAt = 1100000\<rparr>]\<rparr>))) = LocksRefreshed 2 \<and>
   IsActive 700000 (db (refresh_chapter_locks [] (Some (empty_db\<lparr>chapter_locks :=
      [\<lparr>userId = JStr ''guest_1'', contentId = JNum 42, chapterId = JStr ''3'',
        unlockedAt = 0, expiresAt = 600000\<rparr>,
       \<lparr>userId = JStr ''guest_2'', contentId = JNum 42, chapterId = JStr ''3'',
        unlockedAt = 500000, expiresAt = 1100000\<rparr>]\<rparr>)))) ''guest_2'' ''42'' ''3'' =
     Unlocked False"
proof -
  let ?d = "empty_db\<lparr>chapter_locks :=
      [\<lparr>userId = JStr ''guest_1'', contentId = JNum 42, chapterId = JStr ''3'',
        unlockedAt = 0, expiresAt = 600000\<rparr>,
       \<lparr>userId = JStr ''guest_2'', contentId = JNum 42, chapterId = JStr ''3'',
        unlockedAt = 500000, expiresAt = 1100000\<rparr>]\<rparr>"
  have ok: "LocksDeleteMany \<notin> set []" by simp
  have "reply (refresh_chapter_locks [] (Some ?d)) = LocksRefreshed 2"
    using revoke_all [OF ok, where dbs = ?d, THEN conjunct1] by (simp add: respond_def)
  moreover have "IsActive 700000 (db (refresh_chapter_locks [] (Some ?d))) ''guest_2'' ''42'' ''3'' =
      Unlocked False"
    using revoke_all [OF ok, where dbs = ?d, THEN conjunct2] by blast
  ultimately show ?thesis by simp
qed

subsection \<open>Reads\<close>

text \<open>
  Claim C10. \<^verbatim>\<open>GET /api/check-unlock\<close> and \<^verbatim>\<open>GET /api/user-locks\<close> leave the database as
  they found it, connected or not and whether or not the read rejects; as events they
  leave the whole server state unchanged.
\<close>

theorem reads_are_pure:
  "db (check_unlock fl now d uid cid chid) = d \<and>
   db (user_locks fl now d uid) = d \<and>
   step (CheckUnlock fl now uid cid chid) s = s \<and>
   step (UserLocks fl now uid) s = s"
  by (simp add: locks_check_unlock locks_user_locks)

subsection \<open>The delayed grant\<close>

lemma upsert_lock_fresh:
  "\<not> (\<exists>l\<in>set ls. lock_key u c ch l) \<Longrightarrow>
   upsert_lock u c ch tu te ls =
     ls @ [\<lparr>userId = bson u, contentId = bson c, chapterId = bson ch, unlockedAt = tu,
            expiresAt = te\<rparr>]"
  by (simp add: upsert_lock_def upsertOne_def list_ex_iff set_times_def)

lemma step_connected: "store x \<noteq> None \<Longrightarrow> store (step e x) \<noteq> None"
proof (cases e)
  case (TimerFires fl ta tb)
  assume "store x \<noteq> None"
  then show ?thesis
    by (auto simp: TimerFires timer_fires_def timer_callback_def Let_def split: option.splits)
qed (auto simp: locks_check_unlock locks_user_locks locks_chapter_gate unlock_chapter_def
      ads_complete_def refresh_chapter_locks_def sweeper_def ttl_monitor_def deleteMany_def
      respond_def caught_def unavailable_def Let_def)

text \<open>A timer for another triple leaves a triple without a lease.\<close>

lemma upsert_lock_elsewhere:
  assumes "\<not> (\<exists>l\<in>set ls. lock_key u c ch l)"
    and "(bson u', bson c', bson ch') \<noteq> (bson u, bson c, bson ch)"
  shows "\<not> (\<exists>l\<in>set (upsert_lock u' c' ch' tu te ls). lock_key u c ch l)"
proof
  assume "\<exists>l\<in>set (upsert_lock u' c' ch' tu te ls). lock_key u c ch l"
  then obtain l where l: "l \<in> set (upsert_lock u' c' ch' tu te ls)" "lock_key u c ch l"
    by blast
  show False
  proof (cases "lock_key u' c' ch' l")
    case True
    with l(2) assms(2) show False by (simp add: lock_key_triple)
  next
    case False
    with l(1) have "l \<in> set ls" by (simp add: upsert_lock_other)
    with l(2) assms(1) show False by blast
  qed
qed

lemma idle_step_waiting:
  assumes conn: "store x \<noteq> None"
    and fresh: "\<not> (\<exists>l\<in>set (locks_of (store x)). lock_key u c ch l)"
    and mine: "tm \<in> set (pending x)"
    and others: "\<forall>y\<in>set (pending x). y = tm \<or>
        (bson (t_userId y), parseInt (t_contentId y), bson (t_chapterId y)) \<noteq>
        (bson u, bson c, bson ch)"
    and idle: "idle_before (due tm) e"
  shows "store (step e x) \<noteq> None \<and>
     \<not> (\<exists>l\<in>set (locks_of (store (step e x))). lock_key u c ch l) \<and>
     tm \<in> set (pending (step e x)) \<and>
     (\<forall>y\<in>set (pending (step e x)). y = tm \<or>
        (bson (t_userId y), parseInt (t_contentId y), bson (t_chapterId y)) \<noteq>
        (bson u, bson c, bson ch))"
proof (cases e)
  case (TimerFires fl ta tb)
  with idle have early: "ta < due tm" by simp
  show ?thesis
  proof (cases "List.find (\<lambda>y. due y \<le> ta) (pending x)")
    case None
    with conn fresh mine others show ?thesis
      by (simp add: TimerFires timer_fires_def)
  next
    case (Some y)
    then have y: "y \<in> set (pending x)" "due y \<le> ta"
      by (auto simp: find_Some_iff)
    with early have ne: "y \<noteq> tm" by auto
    with y(1) others
    have key: "(bson (t_userId y), bson (parseInt (t_contentId y)), bson (t_chapterId y)) \<noteq>
        (bson u, bson c, bson ch)"
      by (auto simp: bson_parseInt)
    have st: "step e x = \<lparr>store = fst (timer_callback fl ta tb (store x) y),
                           pending = remove1 y (pending x)\<rparr>"
      by (simp add: TimerFires timer_fires_def Some)
    have "\<not> (\<exists>l\<in>set (locks_of (fst (timer_callback fl ta tb (store x) y))). lock_key u c ch l)"
      using fresh upsert_lock_elsewhere [OF fresh key]
      by (simp add: locks_timer_callback)
    moreover have "fst (timer_callback fl ta tb (store x) y) \<noteq> None"
      using conn by (auto simp: timer_callback_def Let_def)
    moreover have "tm \<in> set (remove1 y (pending x))"
      using mine ne by simp
    moreover have "\<forall>z\<in>set (remove1 y (pending x)). z = tm \<or>
        (bson (t_userId z), parseInt (t_contentId z), bson (t_chapterId z)) \<noteq>
        (bson u, bson c, bson ch)"
      using others set_remove1_subset [of y "pending x"] by blast
    ultimately show ?thesis
      by (simp add: st)
  qed
next
  case (UnlockChapter fl ta tb tc b)
  with idle show ?thesis by simp
next
  case (AdsComplete fl ta tb tc b)
  with idle show ?thesis by simp
next
  case (StartChapterTimer now b)
  with idle show ?thesis by simp
next
  case (CheckUnlock fl now uid cid chid)
  with conn fresh mine others show ?thesis by (simp add: locks_check_unlock)
next
  case (UserLocks fl now uid)
  with conn fresh mine others show ?thesis by (simp add: locks_user_locks)
next
  case (ChapterGate fl now manga chid q)
  with conn fresh mine others show ?thesis by (simp add: locks_chapter_gate)
next
  case (RefreshChapterLocks fl)
  with conn fresh mine others step_connected [of x e] show ?thesis
    by (simp add: locks_refresh)
next
  case (Sweep fl now)
  with conn fresh mine others step_connected [of x e] show ?thesis
    by (simp add: locks_sweeper)
next
  case (TtlMonitor now)
  with conn fresh mine others step_connected [of x e] show ?thesis
    by (simp add: locks_ttl_monitor)
qed

lemma idle_run_waiting:
  assumes "store x \<noteq> None"
    and "\<not> (\<exists>l\<in>set (locks_of (store x)). lock_key u c ch l)"
    and "tm \<in> set (pending x)"
    and "\<forall>y\<in>set (pending x). y = tm \<or>
        (bson (t_userId y), parseInt (t_contentId y), bson (t_chapterId y)) \<noteq>
        (bson u, bson c, bson ch)"
    and "\<forall>e\<in>set es. idle_before (due tm) e"
  shows "store (run es x) \<noteq> None \<and>
     \<not> (\<exists>l\<in>set (locks_of (store (run es x))). lock_key u c ch l) \<and>
     tm \<in> set (pending (run es x))"
  using assms
proof (induction es arbitrary: x)
  case Nil
  then show ?case by simp
next
  case (Cons e es)
  from Cons.prems have "idle_before (due tm) e" by simp
  from idle_step_waiting [OF Cons.prems(1-4) this] Cons.prems(5)
  show ?case
    by (simp add: Cons.IH)
qed


text \<open>
  Claim C9, as the code has it. \<^verbatim>\<open>POST /api/start-chapter-timer\<close> at time \<open>t\<close>, on a
  connected server, answers 200 at once, leaves the database as it was and adds a timer
  due at \<open>t + 40000\<close>. Let \<^verbatim>\<open>userId\<close> and \<^verbatim>\<open>chapterId\<close> be strings and \<^verbatim>\<open>contentId\<close> parse
  to the same number as the path parameter, and let the triple have no lease and no
  other pending timer. Then whatever reads, resets, sweeps, TTL passes and earlier turns
  of the event loop follow, the timer is still pending and the check endpoint answers
  false for the triple at every time. The event loop runs the timer only at a time
  \<open>tf\<close> from \<open>t + 40000\<close> on; when it does and the upsert succeeds, the triple has a
  lease with \<^verbatim>\<open>expiresAt\<close> \<open>tf + 600000\<close>: the check endpoint answers true before that time
  and false from it on.
\<close>

theorem delayed_grant:
  assumes conn: "store s = Some dbs"
    and fresh: "\<not> (\<exists>l\<in>set (chapter_locks dbs).
                     lock_key (JStr uid) (parseInt (JStr cid)) (JStr chid) l)"
    and others: "\<forall>y\<in>set (pending s).
        (bson (t_userId y), parseInt (t_contentId y), bson (t_chapterId y)) \<noteq>
        (JStr uid, parseInt (JStr cid), JStr chid)"
    and b: "field b ''userId'' = JStr uid" "field b ''contentId'' = cv"
      "parseInt cv = parseInt (JStr cid)" "field b ''chapterId'' = JStr chid"
    and sched: "s' = step (StartChapterTimer t b) s"
    and idle: "\<forall>e\<in>set es. idle_before (t + 40000) e"
    and tm: "tm = \<lparr>due = t + 40000, t_userId = JStr uid, t_contentId = cv,
                    t_chapterId = JStr chid\<rparr>"
  shows "fst (start_chapter_timer t (store s) (pending s) b) =
           \<lparr>db = store s, status = 200, reply = TimerStarted 40000, logged = []\<rparr> \<and>
     store s' = store s \<and> pending s' = pending s @ [tm] \<and>
     (\<forall>now. IsActive now (store (run es s')) uid cid chid = Unlocked False) \<and>
     tm \<in> set (pending (run es s')) \<and>
     (\<forall>fl tf tf'.
        LocksUpdateOne \<notin> set fl \<and>
        List.find (\<lambda>y. due y \<le> tf) (pending (run es s')) = Some tm \<longrightarrow>
        t + 40000 \<le> tf \<and>
        (\<exists>l\<in>set (locks_of (store (timer_fires fl tf tf' (run es s')))).
           lock_key (JStr uid) (parseInt (JStr cid)) (JStr chid) l \<and>
           unlockedAt l = tf' \<and> expiresAt l = tf + 600000) \<and>
        (\<forall>now. now < tf + 600000 \<longrightarrow>
           IsActive now (store (timer_fires fl tf tf' (run es s'))) uid cid chid =
             Unlocked True) \<and>
        (\<forall>now. tf + 600000 \<le> now \<longrightarrow>
           IsActive now (store (timer_fires fl tf tf' (run es s'))) uid cid chid =
             Unlocked False))"
proof -
  let ?k = "lock_key (JStr uid) (parseInt (JStr cid)) (JStr chid)"
  let ?x = "run es s'"
  have resp: "fst (start_chapter_timer t (store s) (pending s) b) =
           \<lparr>db = store s, status = 200, reply = TimerStarted 40000, logged = []\<rparr>"
    by (simp add: start_chapter_timer_def conn Let_def respond_def)
  have s': "s' = s\<lparr>pending := pending s @ [tm]\<rparr>"
    by (simp add: sched start_chapter_timer_def conn b tm Let_def timer_ms_def)
  have w1: "store s' \<noteq> None"
    by (simp add: s' conn)
  have w2: "\<not> (\<exists>l\<in>set (locks_of (store s')). ?k l)"
    using fresh by (simp add: s' conn locks_of_def)
  have w3: "tm \<in> set (pending s')"
    by (simp add: s')
  have w4: "\<forall>y\<in>set (pending s'). y = tm \<or>
        (bson (t_userId y), parseInt (t_contentId y), bson (t_chapterId y)) \<noteq>
        (bson (JStr uid), bson (parseInt (JStr cid)), bson (JStr chid))"
    using others by (auto simp: s' bson_parseInt bson_parse_int_str)
  have w5: "\<forall>e\<in>set es. idle_before (due tm) e"
    using idle by (simp add: tm)
  note w = idle_run_waiting [OF w1 w2 w3 w4 w5]
  then obtain d where d: "store ?x = Some d" "\<not> (\<exists>l\<in>set (chapter_locks d). ?k l)"
    by (auto simp: locks_of_def)
  have before: "\<And>now. IsActive now (store ?x) uid cid chid = Unlocked False"
    using d(2) by (auto simp: d(1) IsActive_iff)
  have fired: "\<And>fl tf tf'. LocksUpdateOne \<notin> set fl \<Longrightarrow>
      List.find (\<lambda>y. due y \<le> tf) (pending ?x) = Some tm \<Longrightarrow>
      t + 40000 \<le> tf \<and>
      store (timer_fires fl tf tf' ?x) =
        Some (d\<lparr>chapter_locks := chapter_locks d @
            [\<lparr>userId = JStr uid, contentId = parseInt (JStr cid), chapterId = JStr chid,
              unlockedAt = tf', expiresAt = tf + 600000\<rparr>]\<rparr>)"
  proof -
    fix fl tf tf'
    assume ok: "LocksUpdateOne \<notin> set fl"
      and next_due: "List.find (\<lambda>y. due y \<le> tf) (pending ?x) = Some tm"
    from next_due have "due tm \<le> tf"
      by (auto simp: find_Some_iff)
    then have late: "t + 40000 \<le> tf"
      by (simp add: tm)
    have "upsert_lock (JStr uid) (parseInt cv) (JStr chid) tf' (tf + 600000) (chapter_locks d) =
        chapter_locks d @
          [\<lparr>userId = JStr uid, contentId = parseInt (JStr cid), chapterId = JStr chid,
            unlockedAt = tf', expiresAt = tf + 600000\<rparr>]"
      using d(2) by (simp add: b(3) upsert_lock_fresh bson_parseInt bson_parse_int_str)
    then have "store (timer_fires fl tf tf' ?x) =
        Some (d\<lparr>chapter_locks := chapter_locks d @
            [\<lparr>userId = JStr uid, contentId = parseInt (JStr cid), chapterId = JStr chid,
              unlockedAt = tf', expiresAt = tf + 600000\<rparr>]\<rparr>)"
      using ok
      by (simp add: timer_fires_def next_due d(1) timer_callback_def Let_def lease_ms_def tm)
    with late show "t + 40000 \<le> tf \<and>
      store (timer_fires fl tf tf' ?x) =
        Some (d\<lparr>chapter_locks := chapter_locks d @
            [\<lparr>userId = JStr uid, contentId = parseInt (JStr cid), chapterId = JStr chid,
              unlockedAt = tf', expiresAt = tf + 600000\<rparr>]\<rparr>)"
      by simp
  qed
  have after: "\<And>fl tf tf' now. LocksUpdateOne \<notin> set fl \<Longrightarrow>
      List.find (\<lambda>y. due y \<le> tf) (pending ?x) = Some tm \<Longrightarrow>
      IsActive now (store (timer_fires fl tf tf' ?x)) uid cid chid = Unlocked (now < tf + 600000)"
    using d(2) fired by (auto simp: IsActive_iff lock_key_def bson_parseInt bson_parse_int_str)
  have lease: "\<And>fl tf tf'. LocksUpdateOne \<notin> set fl \<Longrightarrow>
      List.find (\<lambda>y. due y \<le> tf) (pending ?x) = Some tm \<Longrightarrow>
      \<exists>l\<in>set (locks_of (store (timer_fires fl tf tf' ?x))).
         ?k l \<and> unlockedAt l = tf' \<and> expiresAt l = tf + 600000"
    using fired by (simp add: locks_of_def lock_key_def bson_parseInt bson_parse_int_str)
  have late: "\<And>fl tf tf'. LocksUpdateOne \<notin> set fl \<Longrightarrow>
      List.find (\<lambda>y. due y \<le> tf) (pending ?x) = Some tm \<Longrightarrow> t + 40000 \<le> tf"
    using fired by blast
  have fin: "\<forall>fl tf tf'.
        LocksUpdateOne \<notin> set fl \<and>
        List.find (\<lambda>y. due y \<le> tf) (pending ?x) = Some tm \<longrightarrow>
        t + 40000 \<le> tf \<and>
        (\<exists>l\<in>set (locks_of (store (timer_fires fl tf tf' ?x))).
           ?k l \<and> unlockedAt l = tf' \<and> expiresAt l = tf + 600000) \<and>
        (\<forall>now. now < tf + 600000 \<longrightarrow>
           IsActive now (store (timer_fires fl tf tf' ?x)) uid cid chid = Unlocked True) \<and>
        (\<forall>now. tf + 600000 \<le> now \<longrightarrow>
           IsActive now (store (timer_fires fl tf tf' ?x)) uid cid chid = Unlocked False)"
  proof (intro allI impI, elim conjE)
    fix fl tf tf'
    assume a: "LocksUpdateOne \<notin> set fl" "List.find (\<lambda>y. due y \<le> tf) (pending ?x) = Some tm"
    from late [OF a] lease [OF a, of tf'] after [OF a, of _ tf']
    show "t + 40000 \<le> tf \<and>
        (\<exists>l\<in>set (locks_of (store (timer_fires fl tf tf' ?x))).
           ?k l \<and> unlockedAt l = tf' \<and> expiresAt l = tf + 600000) \<and>
        (\<forall>now. now < tf + 600000 \<longrightarrow>
           IsActive now (store (timer_fires fl tf tf' ?x)) uid cid chid = Unlocked True) \<and>
        (\<forall>now. tf + 600000 \<le> now \<longrightarrow>
           IsActive now (store (timer_fires fl tf tf' ?x)) uid cid chid = Unlocked False)"
      by simp
  qed
  have st: "store s' = store s" "pending s' = pending s @ [tm]"
    by (simp_all add: s')
  from w have pend: "tm \<in> set (pending ?x)" by blast
  from before have bef: "\<forall>now. IsActive now (store ?x) uid cid chid = Unlocked False" by blast
  from resp st bef pend fin show ?thesis
    by (intro conjI)
qed


text \<open>
  The scenario of the specification, with another user's timer pending: a timer started
  at 0 has not fired at 39999 ms, when the other timer runs, and the check is false;
  fired at 40000 ms, the check is true at 40001 ms and false again at 640000 ms.
\<close>

theorem delayed_grant_witness:
  "IsActive 39999
     (store (run [TimerFires [] 39999 39999]
        (step (StartChapterTimer 0
           [(''userId'', JStr ''guest_1''), (''contentId'', JNum 42), (''chapterId'', JStr ''3'')])
           \<lparr>store = Some empty_db,
            pending = [\<lparr>due = 35000, t_userId = JStr ''guest_2'', t_contentId = JNum 42,
                        t_chapterId = JStr ''3''\<rparr>]\<rparr>)))
     ''guest_1'' ''42'' ''3'' = Unlocked False \<and>
   IsActive 40001
     (store (timer_fires [] 40000 40000 (run [TimerFires [] 39999 39999]
        (step (StartChapterTimer 0
           [(''userId'', JStr ''guest_1''), (''contentId'', JNum 42), (''chapterId'', JStr ''3'')])
           \<lparr>store = Some empty_db,
            pending = [\<lparr>due = 35000, t_userId = JStr ''guest_2'', t_contentId = JNum 42,
                        t_chapterId = JStr ''3''\<rparr>]\<rparr>))))
     ''guest_1'' ''42'' ''3'' = Unlocked True \<and>
   IsActive 640000
     (store (timer_fires [] 40000 40000 (run [TimerFires [] 39999 39999]
        (step (StartChapterTimer 0
           [(''userId'', JStr ''guest_1''), (''contentId'', JNum 42), (''chapterId'', JStr ''3'')])
           \<lparr>store = Some empty_db,
            pending = [\<lparr>due = 35000, t_userId = JStr ''guest_2'', t_contentId = JNum 42,
                        t_chapterId = JStr ''3''\<rparr>]\<rparr>))))
     ''guest_1'' ''42'' ''3'' = Unlocked False"
proof -
  let ?b = "[(''userId'', JStr ''guest_1''), (''contentId'', JNum 42), (''chapterId'', JStr ''3'')]"
  let ?o = "\<lparr>due = 35000, t_userId = JStr ''guest_2'', t_contentId = JNum 42,
              t_chapterId = JStr ''3''\<rparr>"
  let ?s = "\<lparr>store = Some empty_db, pending = [?o]\<rparr>"
  let ?tm = "\<lparr>due = 0 + 40000, t_userId = JStr ''guest_1'', t_contentId = JNum 42,
               t_chapterId = JStr ''3''\<rparr>"
  let ?x = "run [TimerFires [] 39999 39999] (step (StartChapterTimer 0 ?b) ?s)"
  have p: "parseInt (JNum 42) = parseInt (JStr ''42'')"
    by (simp add: parse_defs)
  have f: "\<not> (\<exists>l\<in>set (chapter_locks empty_db).
                lock_key (JStr ''guest_1'') (parseInt (JStr ''42'')) (JStr ''3'') l)"
    by (simp add: empty_db_def)
  have o: "\<forall>y\<in>set (pending ?s).
        (bson (t_userId y), parseInt (t_contentId y), bson (t_chapterId y)) \<noteq>
        (JStr ''guest_1'', parseInt (JStr ''42''), JStr ''3'')"
    by simp
  have i: "\<forall>e\<in>set [TimerFires [] 39999 39999]. idle_before (0 + 40000) e"
    by simp
  have n: "List.find (\<lambda>y. due y \<le> 40000) (pending ?x) = Some ?tm"
    by (simp add: start_chapter_timer_def timer_fires_def field_def timer_ms_def Let_def)
  have c: "store ?s = Some empty_db"
    by simp
  have b: "field ?b ''userId'' = JStr ''guest_1''" "field ?b ''contentId'' = JNum 42"
      "field ?b ''chapterId'' = JStr ''3''"
    by (simp_all add: field_def)
  note g = delayed_grant [OF c f o b(1) b(2) p b(3) refl i refl]
  note quiet = g [THEN conjunct2, THEN conjunct2, THEN conjunct2, THEN conjunct1]
  note fires = g [THEN conjunct2, THEN conjunct2, THEN conjunct2, THEN conjunct2,
      THEN conjunct2, rule_format, of "[]" 40000 40000]
  have ok: "LocksUpdateOne \<notin> set [] \<and> List.find (\<lambda>y. due y \<le> 40000) (pending ?x) = Some ?tm"
    using n by simp
  have "IsActive 39999 (store ?x) ''guest_1'' ''42'' ''3'' = Unlocked False"
    using quiet by (rule spec)
  moreover have "IsActive 40001 (store (timer_fires [] 40000 40000 ?x))
      ''guest_1'' ''42'' ''3'' = Unlocked True"
    using fires [OF ok, THEN conjunct2, THEN conjunct2, THEN conjunct1, rule_format, of 40001]
    by simp
  moreover have "IsActive 640000 (store (timer_fires [] 40000 40000 ?x))
      ''guest_1'' ''42'' ''3'' = Unlocked False"
    using fires [OF ok, THEN conjunct2, THEN conjunct2, THEN conjunct2, rule_format, of 640000]
    by simp
  ultimately show ?thesis by simp
qed

text \<open>
  Claim C9 as stated fails for a triple whose \<^verbatim>\<open>chapterId\<close> is a number: the timer fires
  and stores the lease with the number 3, and the check for the path string \<^verbatim>\<open>"3"\<close>
  answers false just after.
\<close>

theorem numeric_chapter_timer_unseen:
  "locks_of (store (run
       [StartChapterTimer 0
          [(''userId'', JStr ''guest_1''), (''contentId'', JNum 42), (''chapterId'', JNum 3)],
        TimerFires [] 40000 40000]
       \<lparr>store = Some empty_db, pending = []\<rparr>)) =
     [\<lparr>userId = JStr ''guest_1'', contentId = JNum 42, chapterId = JNum 3,
       unlockedAt = 40000, expiresAt = 640000\<rparr>] \<and>
   IsActive 40001 (store (run
       [StartChapterTimer 0
          [(''userId'', JStr ''guest_1''), (''contentId'', JNum 42), (''chapterId'', JNum 3)],
        TimerFires [] 40000 40000]
       \<lparr>store = Some empty_db, pending = []\<rparr>)) ''guest_1'' ''42'' ''3'' = Unlocked False"
  by (simp add: start_chapter_timer_def field_def Let_def timer_fires_def timer_callback_def
      timer_ms_def lease_ms_def locks_of_def empty_db_def upsert_lock_def upsertOne_def
      set_times_def IsActive_iff lock_key_def parse_defs)

end
